theory Spec2Isabelle
  imports Main "HOL-Library.Multiset" "HOL-Library.Product_Lexorder"
    "HOL-Library.Char_ord" "HOL-Library.List_Lexorder"
begin

section \<open>Data model\<close>

text \<open>
  The relational tables of the feed service, as the GORM entities declare them.
  Go's \<open>uint\<close> identifiers are only compared, never computed with, and are
  modelled as \<open>nat\<close>. The \<open>int64\<close> counters are modelled as \<open>int\<close>; where the
  store computes with them (\<open>likes_count + ?\<close>) the BIGINT range check of MySQL is
  written out. \<open>time.Time\<close> values are Unix seconds.
\<close>

record Video =
  ID :: nat
  AuthorID :: nat
  Username :: string
  Title :: string
  Description :: string
  PlayURL :: string
  CoverURL :: string
  CreateTime :: int
  LikesCount :: int
  Popularity :: int

record Like =
  Like_ID :: nat
  VideoID :: nat
  AccountID :: nat
  CreatedAt :: int

record Social =
  Social_ID :: nat
  FollowerID :: nat
  VloggerID :: nat

record Account =
  Account_ID :: nat
  Account_Username :: string
  Password :: string
  Token :: string

text \<open>
  Go errors: \<open>errors.New\<close> values, MySQL driver errors with their number
  (1062 duplicate key, 1690 BIGINT out of range), \<open>gorm.ErrRecordNotFound\<close> and
  \<open>redis.Nil\<close> (the cache miss) and the error of a context that is done.
\<close>

datatype error = ErrorString string | MySQLError nat | ErrRecordNotFound | RedisNil | ContextDone

text \<open>
  The store: one row list per table, and the AUTO\_INCREMENT counters of the tables
  the modelled code inserts into. A statement either succeeds or returns an error and
  leaves the store as it was; transport failures of the store are not modelled.
\<close>

record DB =
  videos :: "Video list"
  likes :: "Like list"
  socials :: "Social list"
  accounts :: "Account list"
  likes_auto_inc :: nat
  socials_auto_inc :: nat

section \<open>Counter mutations (VideoRepository, unlike fallback)\<close>

definition in_int64 :: "int \<Rightarrow> bool" where
  "in_int64 x \<longleftrightarrow> - (2 ^ 63) \<le> x \<and> x < 2 ^ 63"

text \<open>The SQL expression \<open>GREATEST(col + change, 0)\<close> on a signed BIGINT column:
  the sum is checked against the BIGINT range (error 1690) before the clamp.\<close>

definition greatest_plus :: "int \<Rightarrow> int \<Rightarrow> error + int" where
  "greatest_plus col change =
     (if in_int64 (col + change) then Inr (max (col + change) 0) else Inl (MySQLError 1690))"

text \<open>\<open>UPDATE videos SET ... WHERE id = ?\<close>: every row with the id is rewritten;
  an error in the expression fails the statement.\<close>

fun update_where_id :: "nat \<Rightarrow> (Video \<Rightarrow> error + Video) \<Rightarrow> Video list \<Rightarrow> error + Video list" where
  "update_where_id i f [] = Inr []"
| "update_where_id i f (v # vs) =
     (if ID v = i then
        (case f v of
           Inl e \<Rightarrow> Inl e
         | Inr v' \<Rightarrow> (case update_where_id i f vs of Inl e \<Rightarrow> Inl e | Inr vs' \<Rightarrow> Inr (v' # vs')))
      else (case update_where_id i f vs of Inl e \<Rightarrow> Inl e | Inr vs' \<Rightarrow> Inr (v # vs')))"

definition set_likes_greatest :: "int \<Rightarrow> Video \<Rightarrow> error + Video" where
  "set_likes_greatest change v =
     (case greatest_plus (LikesCount v) change of
        Inl e \<Rightarrow> Inl e | Inr n \<Rightarrow> Inr (v\<lparr>LikesCount := n\<rparr>))"

definition set_popularity_greatest :: "int \<Rightarrow> Video \<Rightarrow> error + Video" where
  "set_popularity_greatest change v =
     (case greatest_plus (Popularity v) change of
        Inl e \<Rightarrow> Inl e | Inr n \<Rightarrow> Inr (v\<lparr>Popularity := n\<rparr>))"

definition ChangeLikesCount :: "nat \<Rightarrow> int \<Rightarrow> DB \<Rightarrow> error + DB" where
  "ChangeLikesCount i change db =
     (case update_where_id i (set_likes_greatest change) (videos db) of
        Inl e \<Rightarrow> Inl e | Inr vs \<Rightarrow> Inr (db\<lparr>videos := vs\<rparr>))"

definition ChangePopularity :: "nat \<Rightarrow> int \<Rightarrow> DB \<Rightarrow> error + DB" where
  "ChangePopularity i change db =
     (case update_where_id i (set_popularity_greatest change) (videos db) of
        Inl e \<Rightarrow> Inl e | Inr vs \<Rightarrow> Inr (db\<lparr>videos := vs\<rparr>))"

text \<open>\<open>DELETE FROM likes WHERE video_id = ? AND account_id = ?\<close>, with the number
  of rows it removed.\<close>

definition same_like :: "nat \<Rightarrow> nat \<Rightarrow> Like \<Rightarrow> bool" where
  "same_like vid aid l \<longleftrightarrow> VideoID l = vid \<and> AccountID l = aid"

definition delete_like_rows :: "nat \<Rightarrow> nat \<Rightarrow> DB \<Rightarrow> nat \<times> DB" where
  "delete_like_rows vid aid db =
     (length (filter (same_like vid aid) (likes db)),
      db\<lparr>likes := filter (\<lambda>l. \<not> same_like vid aid l) (likes db)\<rparr>)"

text \<open>The transaction of the unlike fallback (LikeService.Unlike, step 5): an error
  inside the closure rolls the transaction back, so the store is unchanged.\<close>

definition unlike_fallback_tx :: "Like \<Rightarrow> DB \<Rightarrow> error + DB" where
  "unlike_fallback_tx like db =
     (case delete_like_rows (VideoID like) (AccountID like) db of
        (rowsAffected, db1) \<Rightarrow>
          if rowsAffected = 0 then Inl (ErrorString ''user has not liked this video'')
          else (case ChangeLikesCount (VideoID like) (- 1) db1 of
                  Inl e \<Rightarrow> Inl e
                | Inr db2 \<Rightarrow> ChangePopularity (VideoID like) (- 1) db2))"

text \<open>A counter mutation as a request against the store; a failed request leaves the
  store as it was.\<close>

datatype counter_op =
    OpChangeLikesCount nat int
  | OpChangePopularity nat int
  | OpUnlikeFallback Like

fun run_counter_op :: "DB \<Rightarrow> counter_op \<Rightarrow> DB" where
  "run_counter_op db (OpChangeLikesCount i change) =
     (case ChangeLikesCount i change db of Inl e \<Rightarrow> db | Inr db' \<Rightarrow> db')"
| "run_counter_op db (OpChangePopularity i change) =
     (case ChangePopularity i change db of Inl e \<Rightarrow> db | Inr db' \<Rightarrow> db')"
| "run_counter_op db (OpUnlikeFallback like) =
     (case unlike_fallback_tx like db of Inl e \<Rightarrow> db | Inr db' \<Rightarrow> db')"

definition counters_nonneg :: "DB \<Rightarrow> bool" where
  "counters_nonneg db \<longleftrightarrow> list_all (\<lambda>v. 0 \<le> LikesCount v \<and> 0 \<le> Popularity v) (videos db)"

lemma greatest_plus_nonneg: "greatest_plus c d = Inr n \<Longrightarrow> 0 \<le> n"
  by (auto simp: greatest_plus_def split: if_splits)

lemma update_where_id_pres:
  assumes "list_all P vs" and "update_where_id i f vs = Inr vs'"
    and "\<And>v v'. P v \<Longrightarrow> f v = Inr v' \<Longrightarrow> P v'"
  shows "list_all P vs'"
  using assms(1,2)
proof (induction vs arbitrary: vs')
  case Nil
  then show ?case by simp
next
  case (Cons v vs)
  then show ?case
    by (auto split: if_splits sum.splits intro: assms(3))
qed

lemma set_likes_greatest_nonneg:
  assumes "0 \<le> LikesCount v \<and> 0 \<le> Popularity v" and "set_likes_greatest d v = Inr v'"
  shows "0 \<le> LikesCount v' \<and> 0 \<le> Popularity v'"
  using assms greatest_plus_nonneg [of "LikesCount v" d]
  by (auto simp: set_likes_greatest_def split: sum.splits)

lemma set_popularity_greatest_nonneg:
  assumes "0 \<le> LikesCount v \<and> 0 \<le> Popularity v" and "set_popularity_greatest d v = Inr v'"
  shows "0 \<le> LikesCount v' \<and> 0 \<le> Popularity v'"
  using assms greatest_plus_nonneg [of "Popularity v" d]
  by (auto simp: set_popularity_greatest_def split: sum.splits)

lemma ChangeLikesCount_nonneg:
  assumes "counters_nonneg db" and "ChangeLikesCount i d db = Inr db'"
  shows "counters_nonneg db'"
proof -
  from assms(2) obtain vs where
    u: "update_where_id i (set_likes_greatest d) (videos db) = Inr vs" and
    db': "db' = db\<lparr>videos := vs\<rparr>"
    by (auto simp: ChangeLikesCount_def split: sum.splits)
  from assms(1) have "list_all (\<lambda>v. 0 \<le> LikesCount v \<and> 0 \<le> Popularity v) (videos db)"
    by (simp add: counters_nonneg_def)
  from update_where_id_pres [OF this u] set_likes_greatest_nonneg
  have "list_all (\<lambda>v. 0 \<le> LikesCount v \<and> 0 \<le> Popularity v) vs"
    by blast
  with db' show ?thesis by (simp add: counters_nonneg_def)
qed

lemma ChangePopularity_nonneg:
  assumes "counters_nonneg db" and "ChangePopularity i d db = Inr db'"
  shows "counters_nonneg db'"
proof -
  from assms(2) obtain vs where
    u: "update_where_id i (set_popularity_greatest d) (videos db) = Inr vs" and
    db': "db' = db\<lparr>videos := vs\<rparr>"
    by (auto simp: ChangePopularity_def split: sum.splits)
  from assms(1) have "list_all (\<lambda>v. 0 \<le> LikesCount v \<and> 0 \<le> Popularity v) (videos db)"
    by (simp add: counters_nonneg_def)
  from update_where_id_pres [OF this u] set_popularity_greatest_nonneg
  have "list_all (\<lambda>v. 0 \<le> LikesCount v \<and> 0 \<le> Popularity v) vs"
    by blast
  with db' show ?thesis by (simp add: counters_nonneg_def)
qed

lemma delete_like_rows_nonneg:
  "counters_nonneg db \<Longrightarrow> counters_nonneg (snd (delete_like_rows vid aid db))"
  by (simp add: counters_nonneg_def delete_like_rows_def)

lemma unlike_fallback_tx_nonneg:
  assumes "counters_nonneg db" and "unlike_fallback_tx like db = Inr db'"
  shows "counters_nonneg db'"
proof -
  obtain n db1 where d: "delete_like_rows (VideoID like) (AccountID like) db = (n, db1)"
    by (cases "delete_like_rows (VideoID like) (AccountID like) db")
  then have db1: "counters_nonneg db1"
    using delete_like_rows_nonneg [OF assms(1), of "VideoID like" "AccountID like"] by simp
  from assms(2) d obtain db2 where
    l: "ChangeLikesCount (VideoID like) (- 1) db1 = Inr db2" and
    p: "ChangePopularity (VideoID like) (- 1) db2 = Inr db'"
    by (auto simp: unlike_fallback_tx_def split: if_splits sum.splits)
  from ChangeLikesCount_nonneg [OF db1 l] ChangePopularity_nonneg p show ?thesis
    by blast
qed

lemma run_counter_op_nonneg:
  "counters_nonneg db \<Longrightarrow> counters_nonneg (run_counter_op db op)"
  by (cases op)
    (auto split: sum.splits
      dest: ChangeLikesCount_nonneg ChangePopularity_nonneg unlike_fallback_tx_nonneg)

lemma foldl_counter_ops_nonneg:
  "counters_nonneg db \<Longrightarrow> counters_nonneg (foldl run_counter_op db ops)"
  by (induction ops arbitrary: db) (simp_all add: run_counter_op_nonneg)

text \<open>A decrement request: a change that is not positive, or the unlike transaction.\<close>

fun is_decrement :: "counter_op \<Rightarrow> bool" where
  "is_decrement (OpChangeLikesCount i change) \<longleftrightarrow> change \<le> 0"
| "is_decrement (OpChangePopularity i change) \<longleftrightarrow> change \<le> 0"
| "is_decrement (OpUnlikeFallback like) \<longleftrightarrow> True"

definition zero_stays_zero :: "Video \<Rightarrow> Video \<Rightarrow> bool" where
  "zero_stays_zero v v' \<longleftrightarrow>
     (LikesCount v = 0 \<longrightarrow> LikesCount v' = 0) \<and> (Popularity v = 0 \<longrightarrow> Popularity v' = 0)"

lemma zero_stays_zero_refl: "list_all2 zero_stays_zero vs vs"
  by (simp add: list_all2_refl zero_stays_zero_def)

lemma zero_stays_zero_trans:
  "list_all2 zero_stays_zero xs ys \<Longrightarrow> list_all2 zero_stays_zero ys zs \<Longrightarrow>
   list_all2 zero_stays_zero xs zs"
  by (rule list_all2_trans [of zero_stays_zero zero_stays_zero zero_stays_zero xs ys zs])
    (simp_all add: zero_stays_zero_def)

lemma update_where_id_rel:
  assumes "update_where_id i f vs = Inr vs'"
    and "\<And>v v'. f v = Inr v' \<Longrightarrow> R v v'" and "\<And>v. R v v"
  shows "list_all2 R vs vs'"
  using assms(1)
proof (induction vs arbitrary: vs')
  case Nil
  then show ?case by simp
next
  case (Cons v vs)
  then show ?case
    by (auto split: if_splits sum.splits intro: assms(2,3))
qed

lemma greatest_plus_zero: "d \<le> 0 \<Longrightarrow> greatest_plus 0 d = Inr n \<Longrightarrow> n = 0"
  by (auto simp: greatest_plus_def split: if_splits)

lemma set_likes_greatest_zero:
  "d \<le> 0 \<Longrightarrow> set_likes_greatest d v = Inr v' \<Longrightarrow> zero_stays_zero v v'"
  using greatest_plus_zero [of d]
  by (auto simp: set_likes_greatest_def zero_stays_zero_def split: sum.splits)

lemma set_popularity_greatest_zero:
  "d \<le> 0 \<Longrightarrow> set_popularity_greatest d v = Inr v' \<Longrightarrow> zero_stays_zero v v'"
  using greatest_plus_zero [of d]
  by (auto simp: set_popularity_greatest_def zero_stays_zero_def split: sum.splits)

lemma ChangeLikesCount_zero:
  assumes "d \<le> 0" and "ChangeLikesCount i d db = Inr db'"
  shows "list_all2 zero_stays_zero (videos db) (videos db')"
proof -
  from assms(2) obtain vs where
    u: "update_where_id i (set_likes_greatest d) (videos db) = Inr vs" and
    db': "db' = db\<lparr>videos := vs\<rparr>"
    by (auto simp: ChangeLikesCount_def split: sum.splits)
  have "list_all2 zero_stays_zero (videos db) vs"
    by (rule update_where_id_rel [OF u], erule set_likes_greatest_zero [OF assms(1)])
      (simp add: zero_stays_zero_def)
  with db' show ?thesis by simp
qed

lemma ChangePopularity_zero:
  assumes "d \<le> 0" and "ChangePopularity i d db = Inr db'"
  shows "list_all2 zero_stays_zero (videos db) (videos db')"
proof -
  from assms(2) obtain vs where
    u: "update_where_id i (set_popularity_greatest d) (videos db) = Inr vs" and
    db': "db' = db\<lparr>videos := vs\<rparr>"
    by (auto simp: ChangePopularity_def split: sum.splits)
  have "list_all2 zero_stays_zero (videos db) vs"
    by (rule update_where_id_rel [OF u], erule set_popularity_greatest_zero [OF assms(1)])
      (simp add: zero_stays_zero_def)
  with db' show ?thesis by simp
qed

lemma unlike_fallback_tx_zero:
  assumes "unlike_fallback_tx like db = Inr db'"
  shows "list_all2 zero_stays_zero (videos db) (videos db')"
proof -
  obtain n db1 where d: "delete_like_rows (VideoID like) (AccountID like) db = (n, db1)"
    by (cases "delete_like_rows (VideoID like) (AccountID like) db")
  then have v1: "videos db1 = videos db"
    by (auto simp: delete_like_rows_def)
  from assms d obtain db2 where
    l: "ChangeLikesCount (VideoID like) (- 1) db1 = Inr db2" and
    p: "ChangePopularity (VideoID like) (- 1) db2 = Inr db'"
    by (auto simp: unlike_fallback_tx_def split: if_splits sum.splits)
  have "list_all2 zero_stays_zero (videos db1) (videos db2)"
    by (rule ChangeLikesCount_zero [OF _ l]) simp
  moreover have "list_all2 zero_stays_zero (videos db2) (videos db')"
    by (rule ChangePopularity_zero [OF _ p]) simp
  ultimately show ?thesis
    using v1 zero_stays_zero_trans by metis
qed

lemma run_counter_op_zero:
  "is_decrement op \<Longrightarrow> list_all2 zero_stays_zero (videos db) (videos (run_counter_op db op))"
  by (cases op)
    (auto split: sum.splits
      simp: zero_stays_zero_refl ChangeLikesCount_zero ChangePopularity_zero
        unlike_fallback_tx_zero)

lemma greatest_plus_zero_succeeds: "d \<le> 0 \<Longrightarrow> in_int64 d \<Longrightarrow> greatest_plus 0 d = Inr 0"
  by (simp add: greatest_plus_def)

text \<open>
  C4. Starting from a store in which every video has \<open>likes_count \<ge> 0\<close> and
  \<open>popularity \<ge> 0\<close>, every sequence of ChangeLikesCount, ChangePopularity and
  unlike-fallback requests ends in a store with the same invariant. A decrement
  request never turns a zero counter into a non-zero one (rows are compared position
  by position), and the clamped expression at a zero counter with an int64 decrement
  succeeds with the value zero.
\<close>

theorem counters_never_negative:
  assumes "counters_nonneg db"
  shows "counters_nonneg (foldl run_counter_op db ops) \<and>
         (\<forall>op. is_decrement op \<longrightarrow>
            list_all2 zero_stays_zero (videos db) (videos (run_counter_op db op))) \<and>
         (\<forall>d. d \<le> 0 \<and> in_int64 d \<longrightarrow> greatest_plus 0 d = Inr 0)"
  using assms
  by (simp add: foldl_counter_ops_nonneg run_counter_op_zero greatest_plus_zero_succeeds)

definition video0 :: Video where
  "video0 = \<lparr>ID = 1, AuthorID = 2, Username = ''bob'', Title = ''t'', Description = '''',
     PlayURL = ''p'', CoverURL = ''c'', CreateTime = 100, LikesCount = 0, Popularity = 0\<rparr>"

definition db0 :: DB where
  "db0 = \<lparr>videos = [video0],
     likes = [\<lparr>Like_ID = 1, VideoID = 1, AccountID = 7, CreatedAt = 5\<rparr>],
     socials = [], accounts = [], likes_auto_inc = 2, socials_auto_inc = 1\<rparr>"

theorem counters_never_negative_witness:
  "counters_nonneg db0 \<and>
   counters_nonneg (foldl run_counter_op db0
     [OpUnlikeFallback \<lparr>Like_ID = 0, VideoID = 1, AccountID = 7, CreatedAt = 0\<rparr>,
      OpChangeLikesCount 1 (- 3), OpChangePopularity 1 (- 1)]) \<and>
   is_decrement (OpChangeLikesCount 1 (- 3)) \<and>
   list_all2 zero_stays_zero (videos db0)
     (videos (run_counter_op db0 (OpChangeLikesCount 1 (- 3)))) \<and>
   (- 1 :: int) \<le> 0 \<and> in_int64 (- 1) \<and> greatest_plus 0 (- 1) = Inr 0"
proof -
  have h: "counters_nonneg db0"
    by (simp add: counters_nonneg_def db0_def video0_def)
  have d: "is_decrement (OpChangeLikesCount 1 (- 3))" by simp
  have i: "(- 1 :: int) \<le> 0 \<and> in_int64 (- 1)" by (simp add: in_int64_def)
  from counters_never_negative [OF h] h d i show ?thesis by blast
qed

section \<open>Like repository and like worker\<close>

text \<open>VideoRepository.IsExist: \<open>First(&video, id)\<close>; ErrRecordNotFound is a
  \<open>false\<close> answer, any other error is returned.\<close>

definition IsExist :: "nat \<Rightarrow> DB \<Rightarrow> error + bool" where
  "IsExist i db = Inr (list_ex (\<lambda>v. ID v = i) (videos db))"

text \<open>GORM \<open>Create\<close> on the likes table: a zero primary key is assigned from
  AUTO\_INCREMENT; a row with the same primary key or the same
  \<open>(video_id, account_id)\<close> pair violates a unique index (error 1062).\<close>

definition create_like :: "Like \<Rightarrow> DB \<Rightarrow> error + DB" where
  "create_like like db =
     (let new_id = (if Like_ID like = 0 then likes_auto_inc db else Like_ID like) in
      if list_ex (\<lambda>l. Like_ID l = new_id \<or> same_like (VideoID like) (AccountID like) l) (likes db)
      then Inl (MySQLError 1062)
      else Inr (db\<lparr>likes := likes db @ [like\<lparr>Like_ID := new_id\<rparr>],
                  likes_auto_inc := max (likes_auto_inc db) (Suc new_id)\<rparr>))"

definition LikeIgnoreDuplicate :: "Like \<Rightarrow> DB \<Rightarrow> error + (bool \<times> DB)" where
  "LikeIgnoreDuplicate like db =
     (if VideoID like = 0 \<or> AccountID like = 0 then Inr (False, db)
      else (case create_like like db of
              Inr db' \<Rightarrow> Inr (True, db')
            | Inl e \<Rightarrow> if e = MySQLError 1062 then Inr (False, db) else Inl e))"

definition DeleteByVideoAndAccount :: "nat \<Rightarrow> nat \<Rightarrow> DB \<Rightarrow> error + (bool \<times> DB)" where
  "DeleteByVideoAndAccount videoID accountID db =
     (if videoID = 0 \<or> accountID = 0 then Inr (False, db)
      else (case delete_like_rows videoID accountID db of
              (rowsAffected, db') \<Rightarrow> Inr (rowsAffected > 0, db')))"

definition IsLiked :: "nat \<Rightarrow> nat \<Rightarrow> DB \<Rightarrow> error + bool" where
  "IsLiked videoID accountID db =
     Inr (length (filter (same_like videoID accountID) (likes db)) > 0)"

record LikeEvent =
  EventID :: string
  Action :: string
  UserID :: nat
  Event_VideoID :: nat
  OccurredAt :: int

text \<open>The worker is not transactional: each repository call commits on its own, so
  the store reached so far is returned together with the error.\<close>

definition applyLike :: "int \<Rightarrow> nat \<Rightarrow> nat \<Rightarrow> DB \<Rightarrow> error option \<times> DB" where
  "applyLike now userID videoID db =
     (case IsExist videoID db of
        Inl e \<Rightarrow> (Some e, db)
      | Inr ok \<Rightarrow>
          if \<not> ok then (None, db)
          else (case LikeIgnoreDuplicate
                       \<lparr>Like_ID = 0, VideoID = videoID, AccountID = userID, CreatedAt = now\<rparr> db of
                  Inl e \<Rightarrow> (Some e, db)
                | Inr (created, db1) \<Rightarrow>
                    if \<not> created then (None, db1)
                    else (case ChangeLikesCount videoID 1 db1 of
                            Inl e \<Rightarrow> (Some e, db1)
                          | Inr db2 \<Rightarrow>
                              (case ChangePopularity videoID 1 db2 of
                                 Inl e \<Rightarrow> (Some e, db2)
                               | Inr db3 \<Rightarrow> (None, db3)))))"

definition applyUnlike :: "nat \<Rightarrow> nat \<Rightarrow> DB \<Rightarrow> error option \<times> DB" where
  "applyUnlike userID videoID db =
     (case IsExist videoID db of
        Inl e \<Rightarrow> (Some e, db)
      | Inr ok \<Rightarrow>
          if \<not> ok then (None, db)
          else (case DeleteByVideoAndAccount videoID userID db of
                  Inl e \<Rightarrow> (Some e, db)
                | Inr (deleted, db1) \<Rightarrow>
                    if \<not> deleted then (None, db1)
                    else (case ChangeLikesCount videoID (- 1) db1 of
                            Inl e \<Rightarrow> (Some e, db1)
                          | Inr db2 \<Rightarrow>
                              (case ChangePopularity videoID (- 1) db2 of
                                 Inl e \<Rightarrow> (Some e, db2)
                               | Inr db3 \<Rightarrow> (None, db3)))))"

text \<open>LikeWorker.process: the body is the decoded event, \<open>None\<close> when the JSON does
  not decode. The clock value is what \<open>time.Now()\<close> returns during this delivery.\<close>

definition process :: "int \<Rightarrow> LikeEvent option \<Rightarrow> DB \<Rightarrow> error option \<times> DB" where
  "process now body db =
     (case body of
        None \<Rightarrow> (None, db)
      | Some evt \<Rightarrow>
          if UserID evt = 0 \<or> Event_VideoID evt = 0 then (None, db)
          else if Action evt = ''like'' then applyLike now (UserID evt) (Event_VideoID evt) db
          else if Action evt = ''unlike'' then applyUnlike (UserID evt) (Event_VideoID evt) db
          else (None, db))"

text \<open>Delivering the same message once per clock value in the list.\<close>

definition deliver :: "LikeEvent option \<Rightarrow> DB \<Rightarrow> int \<Rightarrow> DB" where
  "deliver body db now = snd (process now body db)"

lemma update_where_id_ids:
  "update_where_id i f vs = Inr vs' \<Longrightarrow> (\<And>v v'. f v = Inr v' \<Longrightarrow> ID v' = ID v) \<Longrightarrow>
   map ID vs' = map ID vs"
  by (induction vs arbitrary: vs') (auto split: if_splits sum.splits)

lemma ChangeLikesCount_frame:
  assumes "ChangeLikesCount i d db = Inr db'"
  shows "likes db' = likes db \<and> map ID (videos db') = map ID (videos db)"
proof -
  from assms obtain vs where
    u: "update_where_id i (set_likes_greatest d) (videos db) = Inr vs" and
    db': "db' = db\<lparr>videos := vs\<rparr>"
    by (auto simp: ChangeLikesCount_def split: sum.splits)
  have "map ID vs = map ID (videos db)"
    by (rule update_where_id_ids [OF u]) (auto simp: set_likes_greatest_def split: sum.splits)
  with db' show ?thesis by simp
qed

lemma ChangePopularity_frame:
  assumes "ChangePopularity i d db = Inr db'"
  shows "likes db' = likes db \<and> map ID (videos db') = map ID (videos db)"
proof -
  from assms obtain vs where
    u: "update_where_id i (set_popularity_greatest d) (videos db) = Inr vs" and
    db': "db' = db\<lparr>videos := vs\<rparr>"
    by (auto simp: ChangePopularity_def split: sum.splits)
  have "map ID vs = map ID (videos db)"
    by (rule update_where_id_ids [OF u]) (auto simp: set_popularity_greatest_def split: sum.splits)
  with db' show ?thesis by simp
qed

lemma list_ex_ids: "list_ex (\<lambda>v. ID v = i) vs \<longleftrightarrow> i \<in> set (map ID vs)"
  by (induction vs) auto

lemma IsExist_ids: "map ID (videos db') = map ID (videos db) \<Longrightarrow> IsExist i db' = IsExist i db"
  by (simp only: IsExist_def list_ex_ids)

lemma create_like_dup:
  assumes "create_like like db = Inr db'" and "likes db1 = likes db'"
    and "VideoID like2 = VideoID like" and "AccountID like2 = AccountID like"
  shows "create_like like2 db1 = Inl (MySQLError 1062)"
proof -
  from assms(1) have "\<exists>l. likes db' = likes db @ [l] \<and> same_like (VideoID like) (AccountID like) l"
    by (auto simp: create_like_def Let_def same_like_def split: if_splits)
  then have "list_ex (same_like (VideoID like) (AccountID like)) (likes db1)"
    using assms(2) by auto
  then have "list_ex (\<lambda>l. Like_ID l = m \<or> same_like (VideoID like2) (AccountID like2) l) (likes db1)" for m
    using assms(3,4) by (auto simp: list_ex_iff)
  then show ?thesis
    by (simp add: create_like_def Let_def)
qed

lemma LikeIgnoreDuplicate_after_applyLike:
  fixes t t' :: int and u v :: nat and db :: DB
  defines "r \<equiv> snd (applyLike t u v db)"
  assumes ex: "list_ex (\<lambda>x. ID x = v) (videos db)"
  shows "LikeIgnoreDuplicate \<lparr>Like_ID = 0, VideoID = v, AccountID = u, CreatedAt = t'\<rparr> r
           = Inr (False, r) \<and> IsExist v r = Inr True"
proof (cases "v = 0 \<or> u = 0")
  case True
  with ex show ?thesis
    by (auto simp: r_def applyLike_def IsExist_def LikeIgnoreDuplicate_def)
next
  case nz: False
  let ?l = "\<lparr>Like_ID = 0, VideoID = v, AccountID = u, CreatedAt = t\<rparr>"
  let ?l' = "\<lparr>Like_ID = 0, VideoID = v, AccountID = u, CreatedAt = t'\<rparr>"
  show ?thesis
  proof (cases "create_like ?l db")
    case (Inl e)
    then have e: "e = MySQLError 1062"
      by (auto simp: create_like_def Let_def split: if_splits)
    have "create_like ?l' db = Inl (MySQLError 1062)"
      using Inl by (simp add: create_like_def Let_def split: if_splits)
    with Inl e ex nz show ?thesis
      by (simp add: r_def applyLike_def IsExist_def LikeIgnoreDuplicate_def)
  next
    case (Inr db1)
    have r: "likes r = likes db1 \<and> map ID (videos r) = map ID (videos db)"
    proof -
      have v1: "videos db1 = videos db"
        using Inr by (auto simp: create_like_def Let_def split: if_splits)
      show ?thesis
        unfolding r_def using Inr ex nz v1
        by (auto simp: applyLike_def IsExist_def LikeIgnoreDuplicate_def
            split: sum.splits dest!: ChangeLikesCount_frame ChangePopularity_frame)
    qed
    have "create_like ?l' r = Inl (MySQLError 1062)"
      by (rule create_like_dup [OF Inr]) (simp_all add: r)
    moreover have "IsExist v r = Inr True"
      using IsExist_ids [of r db v] r ex by (simp add: IsExist_def)
    ultimately show ?thesis
      using nz by (simp add: LikeIgnoreDuplicate_def)
  qed
qed

lemma applyLike_replay:
  "applyLike t' u v (snd (applyLike t u v db)) = (None, snd (applyLike t u v db))"
proof (cases "list_ex (\<lambda>x. ID x = v) (videos db)")
  case False
  then show ?thesis by (simp add: applyLike_def IsExist_def)
next
  case True
  from LikeIgnoreDuplicate_after_applyLike [OF True, where u = u and t = t and t' = t'] show ?thesis
    by (simp add: applyLike_def [of t' u v])
qed

lemma applyUnlike_replay:
  "applyUnlike u v (snd (applyUnlike u v db)) = (None, snd (applyUnlike u v db))"
proof (cases "list_ex (\<lambda>x. ID x = v) (videos db)")
  case False
  then show ?thesis by (simp add: applyUnlike_def IsExist_def)
next
  case ex: True
  show ?thesis
  proof (cases "v = 0 \<or> u = 0")
    case True
    with ex show ?thesis by (auto simp: applyUnlike_def IsExist_def DeleteByVideoAndAccount_def)
  next
    case nz: False
    define db1 where "db1 = snd (delete_like_rows v u db)"
    define r where "r = snd (applyUnlike u v db)"
    have l1: "likes db1 = filter (\<lambda>l. \<not> same_like v u l) (likes db)" and v1: "videos db1 = videos db"
      by (simp_all add: db1_def delete_like_rows_def)
    have r: "likes r = likes db1 \<and> map ID (videos r) = map ID (videos db)"
      unfolding r_def using ex nz v1
      by (auto simp: applyUnlike_def IsExist_def DeleteByVideoAndAccount_def db1_def
          split: sum.splits prod.splits dest!: ChangeLikesCount_frame ChangePopularity_frame)
    have f: "filter (same_like v u) (likes r) = []"
      by (simp add: r l1)
    have g: "filter (\<lambda>l. \<not> same_like v u l) (likes r) = likes r"
      by (simp add: r l1)
    have "delete_like_rows v u r = (0, r)"
      by (simp add: delete_like_rows_def f g)
    moreover have "IsExist v r = Inr True"
      using IsExist_ids [of r db v] r ex by (simp add: IsExist_def)
    ultimately have "applyUnlike u v r = (None, r)"
      using nz by (simp add: applyUnlike_def DeleteByVideoAndAccount_def)
    then show ?thesis by (simp add: r_def)
  qed
qed

lemma process_replay:
  "process t' body (snd (process t body db)) = (None, snd (process t body db))"
  by (auto simp: process_def applyLike_replay applyUnlike_replay split: option.splits)

lemma deliver_replay: "foldl (deliver body) (deliver body db t) ts = deliver body db t"
  by (induction ts) (simp_all add: deliver_def process_replay)

text \<open>
  C7. Delivering the same like event again, any number of times and at any clock
  values, leaves the store (like rows, counters) exactly as the first delivery left
  it. Every replay returns without error; when the video exists, the replay's insert
  reports that no row was created.
\<close>

theorem like_worker_idempotent:
  assumes "Action evt = ''like''"
  shows "foldl (deliver (Some evt)) (deliver (Some evt) db t) ts = deliver (Some evt) db t \<and>
         process t' (Some evt) (deliver (Some evt) db t) = (None, deliver (Some evt) db t) \<and>
         (list_ex (\<lambda>x. ID x = Event_VideoID evt) (videos db) \<longrightarrow>
            LikeIgnoreDuplicate
              \<lparr>Like_ID = 0, VideoID = Event_VideoID evt, AccountID = UserID evt, CreatedAt = t'\<rparr>
              (deliver (Some evt) db t)
            = Inr (False, deliver (Some evt) db t))"
proof -
  have "LikeIgnoreDuplicate
          \<lparr>Like_ID = 0, VideoID = Event_VideoID evt, AccountID = UserID evt, CreatedAt = t'\<rparr>
          (deliver (Some evt) db t)
        = Inr (False, deliver (Some evt) db t)"
    if ex: "list_ex (\<lambda>x. ID x = Event_VideoID evt) (videos db)"
  proof (cases "UserID evt = 0 \<or> Event_VideoID evt = 0")
    case True
    then show ?thesis
      by (auto simp: deliver_def process_def LikeIgnoreDuplicate_def)
  next
    case False
    with assms LikeIgnoreDuplicate_after_applyLike [OF ex, where u = "UserID evt" and t = t and t' = t']
    show ?thesis
      by (simp add: deliver_def process_def)
  qed
  then show ?thesis
    by (simp add: deliver_replay) (simp add: deliver_def process_replay)
qed

definition evt0 :: LikeEvent where
  "evt0 = \<lparr>EventID = ''e1'', Action = ''like'', UserID = 9, Event_VideoID = 1, OccurredAt = 10\<rparr>"

theorem like_worker_idempotent_witness:
  "Action evt0 = ''like'' \<and> list_ex (\<lambda>x. ID x = Event_VideoID evt0) (videos db0) \<and>
   foldl (deliver (Some evt0)) (deliver (Some evt0) db0 10) [11, 12] = deliver (Some evt0) db0 10 \<and>
   map LikesCount (videos (foldl (deliver (Some evt0)) db0 [10, 11, 12])) = [1] \<and>
   map Popularity (videos (foldl (deliver (Some evt0)) db0 [10, 11, 12])) = [1] \<and>
   map AccountID (likes (foldl (deliver (Some evt0)) db0 [10, 11, 12])) = [7, 9] \<and>
   LikeIgnoreDuplicate
     \<lparr>Like_ID = 0, VideoID = Event_VideoID evt0, AccountID = UserID evt0, CreatedAt = 11\<rparr>
     (deliver (Some evt0) db0 10)
   = Inr (False, deliver (Some evt0) db0 10)"
proof -
  have a: "Action evt0 = ''like''" by (simp add: evt0_def)
  have e: "list_ex (\<lambda>x. ID x = Event_VideoID evt0) (videos db0)"
    by (simp add: evt0_def db0_def video0_def)
  have d: "deliver (Some evt0) db0 10 =
     db0\<lparr>videos := [video0\<lparr>LikesCount := 1, Popularity := 1\<rparr>],
         likes := likes db0 @ [\<lparr>Like_ID = 2, VideoID = 1, AccountID = 9, CreatedAt = 10\<rparr>],
         likes_auto_inc := 3\<rparr>"
    by (simp add: deliver_def process_def applyLike_def IsExist_def LikeIgnoreDuplicate_def
        create_like_def same_like_def ChangeLikesCount_def ChangePopularity_def
        set_likes_greatest_def set_popularity_greatest_def greatest_plus_def in_int64_def
        evt0_def db0_def video0_def)
  define s where "s = deliver (Some evt0) db0 10"
  have s: "map LikesCount (videos s) = [1]" "map Popularity (videos s) = [1]"
    "map AccountID (likes s) = [7, 9]"
    unfolding s_def d by (simp_all add: db0_def video0_def)
  have f: "foldl (deliver (Some evt0)) db0 [10, 11, 12] = foldl (deliver (Some evt0)) s [11, 12]"
    by (simp add: s_def)
  from like_worker_idempotent [OF a, where db = db0 and t = 10 and ts = "[11, 12]" and t' = 11] e
  have "foldl (deliver (Some evt0)) s [11, 12] = s \<and>
        LikeIgnoreDuplicate
          \<lparr>Like_ID = 0, VideoID = Event_VideoID evt0, AccountID = UserID evt0, CreatedAt = 11\<rparr> s
        = Inr (False, s)"
    unfolding s_def by blast
  with a e s show ?thesis
    unfolding f by (simp add: s_def [symmetric])
qed

section \<open>Cache client and message bus\<close>

text \<open>
  The Redis client as the code uses it: string keys with a value, sorted sets
  (member and score, members distinct) and the time-to-live last set on a key, in
  milliseconds. Scores are the sums of the \<open>int64\<close> changes the code adds, so they
  are modelled as integers. The passing of time (expiry) and transport failures of
  the cache are not modelled; a \<open>nil\<close> client is \<open>None\<close>.
\<close>

record Cache =
  kv :: "string \<rightharpoonup> string"
  zsets :: "string \<rightharpoonup> (string \<times> int) list"
  ttl :: "string \<rightharpoonup> nat"

definition key_exists :: "string \<Rightarrow> Cache \<Rightarrow> bool" where
  "key_exists key c \<longleftrightarrow> kv c key \<noteq> None \<or> zsets c key \<noteq> None"

definition GetBytes :: "string \<Rightarrow> Cache \<Rightarrow> error + string" where
  "GetBytes key c = (case kv c key of None \<Rightarrow> Inl RedisNil | Some v \<Rightarrow> Inr v)"

definition SetBytes :: "string \<Rightarrow> string \<Rightarrow> nat \<Rightarrow> Cache \<Rightarrow> Cache" where
  "SetBytes key v t c =
     c\<lparr>kv := (kv c)(key \<mapsto> v), zsets := (zsets c)(key := None), ttl := (ttl c)(key \<mapsto> t)\<rparr>"

definition Del :: "string \<Rightarrow> Cache \<Rightarrow> Cache" where
  "Del key c =
     c\<lparr>kv := (kv c)(key := None), zsets := (zsets c)(key := None), ttl := (ttl c)(key := None)\<rparr>"

definition Expire :: "string \<Rightarrow> nat \<Rightarrow> Cache \<Rightarrow> Cache" where
  "Expire key t c = (if key_exists key c then c\<lparr>ttl := (ttl c)(key \<mapsto> t)\<rparr> else c)"

definition zincr :: "string \<Rightarrow> int \<Rightarrow> (string \<times> int) list \<Rightarrow> (string \<times> int) list" where
  "zincr member score z =
     (if member \<in> set (map fst z)
      then map (\<lambda>(m, sc). if m = member then (m, sc + score) else (m, sc)) z
      else z @ [(member, score)])"

definition ZincrBy :: "string \<Rightarrow> string \<Rightarrow> int \<Rightarrow> Cache \<Rightarrow> Cache" where
  "ZincrBy key member score c =
     c\<lparr>zsets := (zsets c)(key \<mapsto> zincr member score (case zsets c key of None \<Rightarrow> [] | Some z \<Rightarrow> z))\<rparr>"

text \<open>\<open>%d\<close> and \<open>strconv.FormatUint(_, 10)\<close>: decimal digits without sign.\<close>

fun show_nat :: "nat \<Rightarrow> string" where
  "show_nat n =
     (if n < 10 then [''0123456789'' ! n]
      else show_nat (n div 10) @ [''0123456789'' ! (n mod 10)])"

declare show_nat.simps [simp del]

text \<open>
  UpdatePopularityCache. \<open>minute\<close> is the current UTC minute in the layout
  \<open>200601021504\<close>, as \<open>time.Now().UTC().Truncate(time.Minute).Format\<close> returns
  it. Every error of the cache is ignored by the code.
\<close>

definition UpdatePopularityCache :: "string \<Rightarrow> Cache option \<Rightarrow> nat \<Rightarrow> int \<Rightarrow> Cache option" where
  "UpdatePopularityCache minute cache i change =
     (case cache of
        None \<Rightarrow> None
      | Some c \<Rightarrow>
          if i = 0 \<or> change = 0 then Some c
          else
            let c1 = Del (''video:detail:id='' @ show_nat i) c;
                windowKey = ''hot:video:1m:'' @ minute;
                member = show_nat i;
                c2 = ZincrBy windowKey member change c1
            in Some (Expire windowKey 7200000 c2))"

text \<open>
  A RabbitMQ client: whether the broker accepts a publish, and what it has accepted.
  The random event id and the timestamp of the envelope are left out of the message.
\<close>

datatype message =
    LikeMsg string nat nat
  | PopularityMsg nat int
  | SocialMsg string nat nat

record MQ =
  accepting :: bool
  published :: "(string \<times> string \<times> message) list"

definition PublishJSON :: "string \<Rightarrow> string \<Rightarrow> message \<Rightarrow> MQ \<Rightarrow> error option \<times> MQ" where
  "PublishJSON exchange routingKey payload q =
     (if exchange = '''' \<or> routingKey = ''''
      then (Some (ErrorString ''exchange and routingKey are required''), q)
      else if accepting q
      then (None, q\<lparr>published := published q @ [(exchange, routingKey, payload)]\<rparr>)
      else (Some (ErrorString ''publish failed''), q))"

definition LikeMQ_publish :: "string \<Rightarrow> string \<Rightarrow> nat \<Rightarrow> nat \<Rightarrow> MQ \<Rightarrow> error option \<times> MQ" where
  "LikeMQ_publish action routingKey userID videoID q =
     (if userID = 0 \<or> videoID = 0 then (Some (ErrorString ''userID and videoID are required''), q)
      else PublishJSON ''like.events'' routingKey (LikeMsg action userID videoID) q)"

definition LikeMQ_Like :: "nat \<Rightarrow> nat \<Rightarrow> MQ \<Rightarrow> error option \<times> MQ" where
  "LikeMQ_Like userID videoID q = LikeMQ_publish ''like'' ''like.like'' userID videoID q"

definition LikeMQ_Unlike :: "nat \<Rightarrow> nat \<Rightarrow> MQ \<Rightarrow> error option \<times> MQ" where
  "LikeMQ_Unlike userID videoID q = LikeMQ_publish ''unlike'' ''like.unlike'' userID videoID q"

definition PopularityMQ_Update :: "nat \<Rightarrow> int \<Rightarrow> MQ \<Rightarrow> error option \<times> MQ" where
  "PopularityMQ_Update videoID change q =
     (if videoID = 0 \<or> change = 0 then (Some (ErrorString ''videoID and change are required''), q)
      else PublishJSON ''video.popularity.events'' ''video.popularity.update''
             (PopularityMsg videoID change) q)"

definition SocialMQ_publish :: "string \<Rightarrow> string \<Rightarrow> nat \<Rightarrow> nat \<Rightarrow> MQ \<Rightarrow> error option \<times> MQ" where
  "SocialMQ_publish action routingKey followerID vloggerID q =
     (if followerID = 0 \<or> vloggerID = 0
      then (Some (ErrorString ''followerID and vloggerID are required''), q)
      else PublishJSON ''social.events'' routingKey (SocialMsg action followerID vloggerID) q)"

definition SocialMQ_Follow :: "nat \<Rightarrow> nat \<Rightarrow> MQ \<Rightarrow> error option \<times> MQ" where
  "SocialMQ_Follow followerID vloggerID q =
     SocialMQ_publish ''follow'' ''social.follow'' followerID vloggerID q"

definition SocialMQ_UnFollow :: "nat \<Rightarrow> nat \<Rightarrow> MQ \<Rightarrow> error option \<times> MQ" where
  "SocialMQ_UnFollow followerID vloggerID q =
     SocialMQ_publish ''unfollow'' ''social.unfollow'' followerID vloggerID q"

text \<open>What the services hold: the store, the cache client and the bus clients
  (each possibly \<open>nil\<close>), and whether LikeService has a video repository.\<close>

record Sys =
  store :: DB
  cache :: "Cache option"
  likeMQ :: "MQ option"
  popularityMQ :: "MQ option"
  socialMQ :: "MQ option"
  VideoRepo_present :: bool
section \<open>LikeService.Like\<close>

text \<open>The SQL expression \<open>col + 1\<close> on a signed BIGINT column (no clamp).\<close>

definition plus_checked :: "int \<Rightarrow> int \<Rightarrow> error + int" where
  "plus_checked col change =
     (if in_int64 (col + change) then Inr (col + change) else Inl (MySQLError 1690))"

definition set_likes_plus :: "int \<Rightarrow> Video \<Rightarrow> error + Video" where
  "set_likes_plus change v =
     (case plus_checked (LikesCount v) change of
        Inl e \<Rightarrow> Inl e | Inr n \<Rightarrow> Inr (v\<lparr>LikesCount := n\<rparr>))"

definition set_popularity_plus :: "int \<Rightarrow> Video \<Rightarrow> error + Video" where
  "set_popularity_plus change v =
     (case plus_checked (Popularity v) change of
        Inl e \<Rightarrow> Inl e | Inr n \<Rightarrow> Inr (v\<lparr>Popularity := n\<rparr>))"

text \<open>The transaction of the like fallback (LikeService.Like, step 6). An error
  returned by the closure rolls the transaction back: the result carries no store.\<close>

definition like_fallback_tx :: "Like \<Rightarrow> DB \<Rightarrow> error + DB" where
  "like_fallback_tx like db =
     (if \<not> list_ex (\<lambda>v. ID v = VideoID like) (videos db)
      then Inl (ErrorString ''video not found'')
      else (case create_like like db of
              Inl e \<Rightarrow>
                if e = MySQLError 1062 then Inl (ErrorString ''user has liked this video'')
                else Inl e
            | Inr db1 \<Rightarrow>
                (case update_where_id (VideoID like) (set_likes_plus 1) (videos db1) of
                   Inl e \<Rightarrow> Inl e
                 | Inr vs1 \<Rightarrow>
                     (case update_where_id (VideoID like) (set_popularity_plus 1) vs1 of
                        Inl e \<Rightarrow> Inl e
                      | Inr vs2 \<Rightarrow> Inr (db1\<lparr>videos := vs2\<rparr>)))))"

text \<open>
  LikeService.Like. \<open>now\<close> is the clock, \<open>minute\<close> its UTC minute in the key layout.
  The request object is never \<open>nil\<close> here (the handler builds it).
\<close>

definition publish_like :: "Like \<Rightarrow> Sys \<Rightarrow> bool \<times> Sys" where
  "publish_like like s =
     (case likeMQ s of
        None \<Rightarrow> (False, s)
      | Some q \<Rightarrow>
          (case LikeMQ_Like (AccountID like) (VideoID like) q of
             (None, q') \<Rightarrow> (True, s\<lparr>likeMQ := Some q'\<rparr>)
           | (Some e, q') \<Rightarrow> (False, s\<lparr>likeMQ := Some q'\<rparr>)))"

definition publish_popularity :: "nat \<Rightarrow> int \<Rightarrow> Sys \<Rightarrow> bool \<times> Sys" where
  "publish_popularity videoID change s =
     (case popularityMQ s of
        None \<Rightarrow> (False, s)
      | Some q \<Rightarrow>
          (case PopularityMQ_Update videoID change q of
             (None, q') \<Rightarrow> (True, s\<lparr>popularityMQ := Some q'\<rparr>)
           | (Some e, q') \<Rightarrow> (False, s\<lparr>popularityMQ := Some q'\<rparr>)))"

definition LikeService_Like :: "int \<Rightarrow> string \<Rightarrow> Like \<Rightarrow> Sys \<Rightarrow> error option \<times> Sys" where
  "LikeService_Like now minute like0 s =
     (if VideoID like0 = 0 \<or> AccountID like0 = 0
      then (Some (ErrorString ''video_id and account_id are required''), s)
      else
        (case (if VideoRepo_present s then IsExist (VideoID like0) (store s) else Inr True) of
           Inl e \<Rightarrow> (Some e, s)
         | Inr ok \<Rightarrow>
             if \<not> ok then (Some (ErrorString ''video not found''), s)
             else
               (case IsLiked (VideoID like0) (AccountID like0) (store s) of
                  Inl e \<Rightarrow> (Some e, s)
                | Inr isLiked \<Rightarrow>
                    if isLiked then (Some (ErrorString ''user has liked this video''), s)
                    else
                      let like = like0\<lparr>CreatedAt := now\<rparr>;
                          (mysqlEnqueued, s1) = publish_like like s;
                          (redisEnqueued, s2) = publish_popularity (VideoID like) 1 s1
                      in
                        if mysqlEnqueued \<and> redisEnqueued then (None, s2)
                        else
                          (case (if \<not> mysqlEnqueued then like_fallback_tx like (store s2)
                                 else Inr (store s2)) of
                             Inl e \<Rightarrow> (Some e, s2)
                           | Inr db' \<Rightarrow>
                               let s3 = s2\<lparr>store := db'\<rparr> in
                               if \<not> redisEnqueued
                               then (None, s3\<lparr>cache :=
                                       UpdatePopularityCache minute (cache s3) (VideoID like) 1\<rparr>)
                               else (None, s3)))))"

section \<open>SocialService.Follow\<close>

definition same_edge :: "nat \<Rightarrow> nat \<Rightarrow> Social \<Rightarrow> bool" where
  "same_edge followerID vloggerID e \<longleftrightarrow> FollowerID e = followerID \<and> VloggerID e = vloggerID"

text \<open>AccountRepository.FindByID: \<open>First(&account, id)\<close>.\<close>

definition FindByID :: "nat \<Rightarrow> DB \<Rightarrow> error + Account" where
  "FindByID i db =
     (case filter (\<lambda>a. Account_ID a = i) (accounts db) of
        [] \<Rightarrow> Inl ErrRecordNotFound
      | a # _ \<Rightarrow> Inr a)"

definition IsFollowed :: "Social \<Rightarrow> DB \<Rightarrow> error + bool" where
  "IsFollowed social db =
     Inr (length (filter (same_edge (FollowerID social) (VloggerID social)) (socials db)) > 0)"

text \<open>SocialRepository.Follow: GORM \<open>Create\<close> on the socials table, with the unique
  index on \<open>(follower_id, vlogger_id)\<close>.\<close>

definition SocialRepository_Follow :: "Social \<Rightarrow> DB \<Rightarrow> error + DB" where
  "SocialRepository_Follow social db =
     (let new_id = (if Social_ID social = 0 then socials_auto_inc db else Social_ID social) in
      if list_ex (\<lambda>e. Social_ID e = new_id \<or> same_edge (FollowerID social) (VloggerID social) e)
           (socials db)
      then Inl (MySQLError 1062)
      else Inr (db\<lparr>socials := socials db @ [social\<lparr>Social_ID := new_id\<rparr>],
                  socials_auto_inc := max (socials_auto_inc db) (Suc new_id)\<rparr>))"

definition SocialRepository_Unfollow :: "Social \<Rightarrow> DB \<Rightarrow> error + DB" where
  "SocialRepository_Unfollow social db =
     Inr (db\<lparr>socials :=
            filter (\<lambda>e. \<not> same_edge (FollowerID social) (VloggerID social) e) (socials db)\<rparr>)"

definition SocialService_Follow :: "Social \<Rightarrow> Sys \<Rightarrow> error option \<times> Sys" where
  "SocialService_Follow social s =
     (case FindByID (FollowerID social) (store s) of
        Inl e \<Rightarrow> (Some e, s)
      | Inr _ \<Rightarrow>
          (case FindByID (VloggerID social) (store s) of
             Inl e \<Rightarrow> (Some e, s)
           | Inr _ \<Rightarrow>
               if FollowerID social = VloggerID social
               then (Some (ErrorString ''can not follow self''), s)
               else
                 (case IsFollowed social (store s) of
                    Inl e \<Rightarrow> (Some e, s)
                  | Inr isFollowed \<Rightarrow>
                      if isFollowed then (Some (ErrorString ''already followed''), s)
                      else
                        let s1 = (case socialMQ s of
                                    None \<Rightarrow> s
                                  | Some q \<Rightarrow>
                                      s\<lparr>socialMQ := Some (snd (SocialMQ_Follow
                                           (FollowerID social) (VloggerID social) q))\<rparr>)
                        in (case SocialRepository_Follow social (store s1) of
                              Inl e \<Rightarrow> (Some e, s1)
                            | Inr db' \<Rightarrow> (None, s1\<lparr>store := db'\<rparr>)))))"

definition SocialService_Unfollow :: "Social \<Rightarrow> Sys \<Rightarrow> error option \<times> Sys" where
  "SocialService_Unfollow social s =
     (case FindByID (FollowerID social) (store s) of
        Inl e \<Rightarrow> (Some e, s)
      | Inr _ \<Rightarrow>
          (case FindByID (VloggerID social) (store s) of
             Inl e \<Rightarrow> (Some e, s)
           | Inr _ \<Rightarrow>
               (case IsFollowed social (store s) of
                  Inl e \<Rightarrow> (Some e, s)
                | Inr isFollowed \<Rightarrow>
                    if \<not> isFollowed then (Some (ErrorString ''not followed''), s)
                    else
                      let s1 = (case socialMQ s of
                                  None \<Rightarrow> s
                                | Some q \<Rightarrow>
                                    s\<lparr>socialMQ := Some (snd (SocialMQ_UnFollow
                                         (FollowerID social) (VloggerID social) q))\<rparr>)
                      in (case SocialRepository_Unfollow social (store s1) of
                            Inl e \<Rightarrow> (Some e, s1)
                          | Inr db' \<Rightarrow> (None, s1\<lparr>store := db'\<rparr>)))))"

definition empty_cache :: Cache where
  "empty_cache = \<lparr>kv = Map.empty, zsets = Map.empty, ttl = Map.empty\<rparr>"



lemma publish_like_store: "store (snd (publish_like like s)) = store s"
  by (auto simp: publish_like_def split: option.splits prod.splits)

lemma publish_popularity_store: "store (snd (publish_popularity v d s)) = store s"
  by (auto simp: publish_popularity_def split: option.splits prod.splits)

lemma LikeService_Like_fallback_totality:
  assumes "LikeService_Like now minute like s = (None, s')"
  shows "(fst (publish_like (like\<lparr>CreatedAt := now\<rparr>) s) \<longrightarrow> store s' = store s) \<and>
         (\<not> fst (publish_like (like\<lparr>CreatedAt := now\<rparr>) s) \<longrightarrow>
            like_fallback_tx (like\<lparr>CreatedAt := now\<rparr>) (store s) = Inr (store s'))"
proof -
  let ?l = "like\<lparr>CreatedAt := now\<rparr>"
  obtain m s1 where p1: "publish_like ?l s = (m, s1)" by (cases "publish_like ?l s")
  obtain r s2 where p2: "publish_popularity (VideoID ?l) 1 s1 = (r, s2)"
    by (cases "publish_popularity (VideoID ?l) 1 s1")
  have st: "store s1 = store s" "store s2 = store s"
    using publish_like_store [of ?l s] publish_popularity_store [of "VideoID ?l" 1 s1] p1 p2
    by simp_all
  from assms have
    "(if m \<and> r then (None, s2)
      else (case (if \<not> m then like_fallback_tx ?l (store s2) else Inr (store s2)) of
              Inl e \<Rightarrow> (Some e, s2)
            | Inr db' \<Rightarrow>
                let s3 = s2\<lparr>store := db'\<rparr> in
                if \<not> r
                then (None, s3\<lparr>cache := UpdatePopularityCache minute (cache s3) (VideoID ?l) 1\<rparr>)
                else (None, s3))) = (None, s')"
    using p1 p2
    by (simp add: LikeService_Like_def Let_def split: if_splits sum.splits)
  then show ?thesis
    using p1 st by (auto simp: Let_def split: if_splits sum.splits)
qed










definition db_accounts :: DB where
  "db_accounts = \<lparr>videos = [], likes = [], socials = [],
     accounts = [\<lparr>Account_ID = 7, Account_Username = ''alice'', Password = ''h1'', Token = ''''\<rparr>,
                 \<lparr>Account_ID = 8, Account_Username = ''bob'', Password = ''h2'', Token = ''''\<rparr>],
     likes_auto_inc = 1, socials_auto_inc = 1\<rparr>"

definition sys_bus_up :: Sys where
  "sys_bus_up = \<lparr>store = db_accounts, cache = Some empty_cache,
     likeMQ = Some \<lparr>accepting = True, published = []\<rparr>,
     popularityMQ = Some \<lparr>accepting = True, published = []\<rparr>,
     socialMQ = Some \<lparr>accepting = True, published = []\<rparr>, VideoRepo_present = True\<rparr>"

definition sys_followed :: Sys where
  "sys_followed = sys_bus_up\<lparr>store :=
     db_accounts\<lparr>socials := [\<lparr>Social_ID = 1, FollowerID = 7, VloggerID = 8\<rparr>],
                 socials_auto_inc := 2\<rparr>\<rparr>"

text \<open>
  C1 at SocialService.Follow and Unfollow: the bus accepts the follow event of
  account 7 for account 8, and the call still inserts the edge into the socials table
  before it returns success; likewise the unfollow event is accepted and the call
  still deletes the edge.
\<close>

theorem follow_writes_although_published:
  "SocialService_Follow \<lparr>Social_ID = 0, FollowerID = 7, VloggerID = 8\<rparr> sys_bus_up =
     (None,
      sys_bus_up\<lparr>
        store := db_accounts\<lparr>socials := [\<lparr>Social_ID = 1, FollowerID = 7, VloggerID = 8\<rparr>],
                             socials_auto_inc := 2\<rparr>,
        socialMQ := Some \<lparr>accepting = True,
          published = [(''social.events'', ''social.follow'', SocialMsg ''follow'' 7 8)]\<rparr>\<rparr>) \<and>
   SocialService_Unfollow \<lparr>Social_ID = 0, FollowerID = 7, VloggerID = 8\<rparr> sys_followed =
     (None,
      sys_bus_up\<lparr>
        store := db_accounts\<lparr>socials := [], socials_auto_inc := 2\<rparr>,
        socialMQ := Some \<lparr>accepting = True,
          published = [(''social.events'', ''social.unfollow'', SocialMsg ''unfollow'' 7 8)]\<rparr>\<rparr>)"
  by (simp add: SocialService_Follow_def SocialService_Unfollow_def FindByID_def IsFollowed_def
      SocialRepository_Follow_def SocialRepository_Unfollow_def
      SocialMQ_Follow_def SocialMQ_UnFollow_def SocialMQ_publish_def PublishJSON_def same_edge_def
      sys_followed_def sys_bus_up_def db_accounts_def)

section \<open>Likes-ranked feed (FeedRepository, FeedService)\<close>

record FeedAuthor =
  Author_ID :: nat
  Author_Username :: string

record FeedVideoItem =
  Item_ID :: nat
  Item_Author :: FeedAuthor
  Item_Title :: string
  Item_Description :: string
  Item_PlayURL :: string
  Item_CoverURL :: string
  Item_CreateTime :: int
  Item_LikesCount :: int
  Item_IsLiked :: bool

record LikesCountCursor =
  Cursor_LikesCount :: int
  Cursor_ID :: nat

record ListLikesCountResponse =
  VideoList :: "FeedVideoItem list"
  NextLikesCountBefore :: "int option"
  NextIDBefore :: "nat option"
  HasMore :: bool

text \<open>\<open>ORDER BY likes_count DESC, id DESC\<close>: ascending in the negated pair, compared
  lexicographically.\<close>

definition likes_rank :: "Video \<Rightarrow> int \<times> int" where
  "likes_rank v = (- LikesCount v, - int (ID v))"

text \<open>\<open>WHERE (likes_count < ?) OR (likes_count = ? AND id < ?)\<close>, added to the query
  only when a cursor is given.\<close>

definition cursor_where :: "LikesCountCursor option \<Rightarrow> Video \<Rightarrow> bool" where
  "cursor_where cursor v =
     (case cursor of
        None \<Rightarrow> True
      | Some c \<Rightarrow>
          LikesCount v < Cursor_LikesCount c \<or>
          (LikesCount v = Cursor_LikesCount c \<and> ID v < Cursor_ID c))"

text \<open>GORM \<open>Limit(n)\<close>: a negative value adds no LIMIT clause. The handlers only pass
  limits between 1 and 50.\<close>

definition sql_limit :: "int \<Rightarrow> 'a list \<Rightarrow> 'a list" where
  "sql_limit limit xs = (if limit < 0 then xs else take (nat limit) xs)"

definition ListLikesCountWithCursor ::
    "int \<Rightarrow> LikesCountCursor option \<Rightarrow> DB \<Rightarrow> error + Video list" where
  "ListLikesCountWithCursor limit cursor db =
     Inr (sql_limit limit (sort_key likes_rank (filter (cursor_where cursor) (videos db))))"

text \<open>LikeRepository.BatchGetLiked: the Go map is read with a default of \<open>false\<close>.\<close>

definition BatchGetLiked :: "nat list \<Rightarrow> nat \<Rightarrow> DB \<Rightarrow> error + (nat \<Rightarrow> bool)" where
  "BatchGetLiked videoIDs accountID db =
     (if videoIDs = [] then Inr (\<lambda>_. False)
      else if accountID = 0 then Inr (\<lambda>_. False)
      else Inr (\<lambda>i. list_ex (\<lambda>l. VideoID l = i \<and> VideoID l \<in> set videoIDs \<and> AccountID l = accountID)
                       (likes db)))"

definition feed_item :: "(nat \<Rightarrow> bool) \<Rightarrow> Video \<Rightarrow> FeedVideoItem" where
  "feed_item likedMap video =
     \<lparr>Item_ID = ID video,
      Item_Author = \<lparr>Author_ID = AuthorID video, Author_Username = Username video\<rparr>,
      Item_Title = Title video,
      Item_Description = Description video,
      Item_PlayURL = PlayURL video,
      Item_CoverURL = CoverURL video,
      Item_CreateTime = CreateTime video,
      Item_LikesCount = LikesCount video,
      Item_IsLiked = likedMap (ID video)\<rparr>"

definition buildFeedVideos :: "Video list \<Rightarrow> nat \<Rightarrow> DB \<Rightarrow> error + FeedVideoItem list" where
  "buildFeedVideos vs viewerAccountID db =
     (case BatchGetLiked (map ID vs) viewerAccountID db of
        Inl e \<Rightarrow> Inl e
      | Inr likedMap \<Rightarrow> Inr (map (feed_item likedMap) vs))"

definition ListLikesCount ::
    "int \<Rightarrow> LikesCountCursor option \<Rightarrow> nat \<Rightarrow> DB \<Rightarrow> error + ListLikesCountResponse" where
  "ListLikesCount limit cursor viewerAccountID db =
     (case ListLikesCountWithCursor limit cursor db of
        Inl e \<Rightarrow> Inl e
      | Inr vs \<Rightarrow>
          let hasMore = (int (length vs) = limit) in
          (case buildFeedVideos vs viewerAccountID db of
             Inl e \<Rightarrow> Inl e
           | Inr feedVideos \<Rightarrow>
               if vs \<noteq> []
               then Inr \<lparr>VideoList = feedVideos,
                         NextLikesCountBefore = Some (LikesCount (last vs)),
                         NextIDBefore = Some (ID (last vs)),
                         HasMore = hasMore\<rparr>
               else Inr \<lparr>VideoList = feedVideos, NextLikesCountBefore = None,
                         NextIDBefore = None, HasMore = hasMore\<rparr>))"

text \<open>
  A client that pages through the listing: it starts without a cursor, sends back
  the cursor pair of each response, and stops at the first response with
  \<open>has_more = false\<close>. The fuel bounds the number of requests; running out of it
  is \<open>None\<close>.
\<close>

definition next_cursor :: "ListLikesCountResponse \<Rightarrow> LikesCountCursor option" where
  "next_cursor resp =
     (case (NextLikesCountBefore resp, NextIDBefore resp) of
        (Some l, Some i) \<Rightarrow> Some \<lparr>Cursor_LikesCount = l, Cursor_ID = i\<rparr>
      | _ \<Rightarrow> None)"

fun all_pages ::
    "nat \<Rightarrow> int \<Rightarrow> LikesCountCursor option \<Rightarrow> nat \<Rightarrow> DB \<Rightarrow> (error + ListLikesCountResponse list) option" where
  "all_pages 0 limit cursor viewer db = None"
| "all_pages (Suc fuel) limit cursor viewer db =
     (case ListLikesCount limit cursor viewer db of
        Inl e \<Rightarrow> Some (Inl e)
      | Inr resp \<Rightarrow>
          if \<not> HasMore resp then Some (Inr [resp])
          else (case all_pages fuel limit (next_cursor resp) viewer db of
                  None \<Rightarrow> None
                | Some (Inl e) \<Rightarrow> Some (Inl e)
                | Some (Inr resps) \<Rightarrow> Some (Inr (resp # resps))))"

definition ranked_before :: "FeedVideoItem \<Rightarrow> FeedVideoItem \<Rightarrow> bool" where
  "ranked_before a b \<longleftrightarrow>
     Item_LikesCount a > Item_LikesCount b \<or>
     (Item_LikesCount a = Item_LikesCount b \<and> Item_ID a > Item_ID b)"

lemma cursor_where_rank:
  "cursor_where (Some \<lparr>Cursor_LikesCount = LikesCount x, Cursor_ID = ID x\<rparr>)
     = (\<lambda>v. likes_rank x < likes_rank v)"
  by (rule ext) (auto simp: cursor_where_def likes_rank_def)

lemma sorted_filter_greater:
  fixes f :: "'a \<Rightarrow> 'b::linorder"
  assumes "sorted_wrt (<) (map f S)" and "k < length S"
  shows "filter (\<lambda>v. f (S ! k) < f v) S = drop (Suc k) S"
proof -
  have S: "S = take k S @ S ! k # drop (Suc k) S"
    using assms(2) by (simp add: id_take_nth_drop)
  have "sorted_wrt (<) (map f (take k S) @ f (S ! k) # map f (drop (Suc k) S))"
    using assms(1) S by (metis list.simps(9) map_append)
  then have lo: "\<forall>x\<in>set (take k S). f x < f (S ! k)"
    and hi: "\<forall>x\<in>set (drop (Suc k) S). f (S ! k) < f x"
    by (auto simp: sorted_wrt_append)
  from lo have a: "filter (\<lambda>v. f (S ! k) < f v) (take k S) = []"
    by (auto simp: filter_empty_conv dest: less_asym)
  from hi have b: "filter (\<lambda>v. f (S ! k) < f v) (drop (Suc k) S) = drop (Suc k) S"
    by (auto simp: filter_id_conv)
  have "filter (\<lambda>v. f (S ! k) < f v) S
        = filter (\<lambda>v. f (S ! k) < f v) (take k S @ S ! k # drop (Suc k) S)"
    using S by simp
  also have "\<dots> = drop (Suc k) S"
    by (simp add: a b)
  finally show ?thesis .
qed

lemma distinct_likes_rank:
  assumes "distinct (map ID vs)"
  shows "distinct (map likes_rank vs)"
proof -
  from assms have d: "distinct vs" and i: "inj_on ID (set vs)"
    by (simp_all add: distinct_map)
  have "inj_on likes_rank (set vs)"
  proof (rule inj_onI)
    fix a b assume "a \<in> set vs" "b \<in> set vs" "likes_rank a = likes_rank b"
    then show "a = b" using i by (auto simp: likes_rank_def dest: inj_onD)
  qed
  with d show ?thesis by (simp add: distinct_map)
qed

lemma ranked_strictly:
  assumes "distinct (map ID vs)"
  shows "sorted_wrt (<) (map likes_rank (sort_key likes_rank vs))"
proof -
  have "distinct (map likes_rank (sort_key likes_rank vs))"
    using distinct_likes_rank [OF assms]
    by (metis distinct_map distinct_sort set_sort)
  then show ?thesis
    by (simp add: strict_sorted_iff)
qed

lemma ListLikesCount_page:
  fixes limit :: int
  defines "page cur db \<equiv> sql_limit limit (filter (cursor_where cur) (sort_key likes_rank (videos db)))"
  shows "\<exists>lm. ListLikesCount limit cur viewer db =
           Inr \<lparr>VideoList = map (feed_item lm) (page cur db),
                NextLikesCountBefore =
                  (if page cur db \<noteq> [] then Some (LikesCount (last (page cur db))) else None),
                NextIDBefore = (if page cur db \<noteq> [] then Some (ID (last (page cur db))) else None),
                HasMore = (int (length (page cur db)) = limit)\<rparr>"
proof -
  have q: "ListLikesCountWithCursor limit cur db = Inr (page cur db)"
    by (simp add: ListLikesCountWithCursor_def page_def filter_sort)
  have "\<exists>lm. BatchGetLiked (map ID (page cur db)) viewer db = Inr lm"
    by (simp add: BatchGetLiked_def)
  then obtain lm where "BatchGetLiked (map ID (page cur db)) viewer db = Inr lm" ..
  then have "buildFeedVideos (page cur db) viewer db = Inr (map (feed_item lm) (page cur db))"
    by (simp add: buildFeedVideos_def)
  with q show ?thesis
    by (auto simp: ListLikesCount_def Let_def)
qed

lemma feed_item_keys:
  "(\<lambda>it. (Item_LikesCount it, Item_ID it)) \<circ> feed_item lm = (\<lambda>v. (LikesCount v, ID v))"
  by (rule ext) (simp add: feed_item_def)

lemma all_pages_from:
  fixes limit :: int
  defines "S db \<equiv> sort_key likes_rank (videos db)"
  assumes ss: "sorted_wrt (<) (map likes_rank (S db))" and lim: "0 < limit"
  shows "j \<le> length (S db) \<Longrightarrow> filter (cursor_where cur) (S db) = drop j (S db) \<Longrightarrow>
         length (S db) - j < fuel \<Longrightarrow>
         \<exists>resps. all_pages fuel limit cur viewer db = Some (Inr resps) \<and>
           map (\<lambda>it. (Item_LikesCount it, Item_ID it)) (concat (map VideoList resps))
             = map (\<lambda>v. (LikesCount v, ID v)) (drop j (S db))"
proof (induction fuel arbitrary: j cur)
  case 0
  then show ?case by simp
next
  case (Suc fuel)
  define n where "n = nat limit"
  define R where "R = drop j (S db)"
  define vs where "vs = take n R"
  have n: "0 < n" "int n = limit" using lim by (simp_all add: n_def)
  have page: "sql_limit limit (filter (cursor_where cur) (sort_key likes_rank (videos db))) = vs"
    using Suc.prems(2) lim by (simp add: sql_limit_def vs_def R_def n_def S_def)
  from ListLikesCount_page [of limit cur viewer db] obtain lm where
    resp: "ListLikesCount limit cur viewer db =
       Inr \<lparr>VideoList = map (feed_item lm) vs,
            NextLikesCountBefore = (if vs \<noteq> [] then Some (LikesCount (last vs)) else None),
            NextIDBefore = (if vs \<noteq> [] then Some (ID (last vs)) else None),
            HasMore = (int (length vs) = limit)\<rparr>"
    unfolding page by blast
  show ?case
  proof (cases "int (length vs) = limit")
    case False
    then have "length R < n"
      using n by (auto simp: vs_def min_def split: if_splits)
    then have "vs = R" by (simp add: vs_def)
    with False resp show ?thesis
      by (simp add: feed_item_keys R_def)
  next
    case True
    then have len: "length vs = n" using n by simp
    then have le: "n \<le> length R" by (simp add: vs_def)
    then have jn: "j + n \<le> length (S db)" using Suc.prems(1) by (simp add: R_def)
    have ne: "vs \<noteq> []" using len n by auto
    have k: "j + n - 1 < length (S db)" using jn n by simp
    have "last vs = vs ! (n - 1)"
      using ne len by (simp add: last_conv_nth)
    also have "\<dots> = R ! (n - 1)" using n by (simp add: vs_def)
    also have "\<dots> = S db ! (j + n - 1)"
      using jn n by (simp add: R_def)
    finally have last: "last vs = S db ! (j + n - 1)" .
    let ?c = "Some \<lparr>Cursor_LikesCount = LikesCount (last vs), Cursor_ID = ID (last vs)\<rparr>"
    have "filter (cursor_where ?c) (S db)
          = filter (\<lambda>v. likes_rank (S db ! (j + n - 1)) < likes_rank v) (S db)"
      by (simp add: cursor_where_rank last)
    also have "\<dots> = drop (Suc (j + n - 1)) (S db)"
      by (rule sorted_filter_greater [OF ss k])
    finally have f: "filter (cursor_where ?c) (S db) = drop (j + n) (S db)"
      using n by simp
    have fu: "length (S db) - (j + n) < fuel"
      using Suc.prems(3) n jn by simp
    from Suc.IH [OF jn f fu] obtain resps where
      r: "all_pages fuel limit ?c viewer db = Some (Inr resps)" and
      m: "map (\<lambda>it. (Item_LikesCount it, Item_ID it)) (concat (map VideoList resps))
            = map (\<lambda>v. (LikesCount v, ID v)) (drop (j + n) (S db))"
      by blast
    have nc: "next_cursor
        \<lparr>VideoList = map (feed_item lm) vs,
         NextLikesCountBefore = (if vs \<noteq> [] then Some (LikesCount (last vs)) else None),
         NextIDBefore = (if vs \<noteq> [] then Some (ID (last vs)) else None),
         HasMore = (int (length vs) = limit)\<rparr> = ?c"
      using ne by (simp add: next_cursor_def)
    have "drop (j + n) (S db) = drop n R"
      by (simp add: R_def add.commute)
    then have "take n R @ drop (j + n) (S db) = R"
      by simp
    then have "map (\<lambda>v. (LikesCount v, ID v)) vs
                 @ map (\<lambda>v. (LikesCount v, ID v)) (drop (j + n) (S db))
               = map (\<lambda>v. (LikesCount v, ID v)) (drop j (S db))"
      unfolding vs_def R_def by (metis map_append)
    with True resp r m nc show ?thesis
      by (simp add: feed_item_keys)
  qed
qed

text \<open>
  C2. For a videos table with a primary key (distinct ids) and a limit above zero, the
  client that follows the returned cursor pair finishes within one request more than
  there are rows, and the concatenation of its pages holds every row exactly once,
  each row before every row with fewer likes or with equal likes and a smaller id.
\<close>

theorem likes_ranked_pages_complete:
  assumes "distinct (map ID (videos db))" and "0 < limit"
  shows "\<exists>resps. all_pages (Suc (length (videos db))) limit None viewer db = Some (Inr resps) \<and>
           mset (map (\<lambda>it. (Item_LikesCount it, Item_ID it)) (concat (map VideoList resps)))
             = mset (map (\<lambda>v. (LikesCount v, ID v)) (videos db)) \<and>
           distinct (map Item_ID (concat (map VideoList resps))) \<and>
           sorted_wrt ranked_before (concat (map VideoList resps))"
proof -
  define S where "S = sort_key likes_rank (videos db)"
  define g :: "int \<times> nat \<Rightarrow> int \<times> int" where "g = (\<lambda>(l, i). (- l, - int i))"
  have ss: "sorted_wrt (<) (map likes_rank S)"
    unfolding S_def by (rule ranked_strictly [OF assms(1)])
  have f: "filter (cursor_where None) S = drop 0 S"
    by (simp add: cursor_where_def)
  from all_pages_from [OF ss [unfolded S_def] assms(2) _ f [unfolded S_def],
      of "Suc (length (videos db))" viewer]
  obtain resps where
    r: "all_pages (Suc (length (videos db))) limit None viewer db = Some (Inr resps)" and
    m: "map (\<lambda>it. (Item_LikesCount it, Item_ID it)) (concat (map VideoList resps))
          = map (\<lambda>v. (LikesCount v, ID v)) S"
    by (auto simp: S_def)
  let ?items = "concat (map VideoList resps)"
  have a: "mset (map (\<lambda>it. (Item_LikesCount it, Item_ID it)) ?items)
             = mset (map (\<lambda>v. (LikesCount v, ID v)) (videos db))"
    unfolding m by (simp add: S_def)
  have "map Item_ID ?items = map snd (map (\<lambda>it. (Item_LikesCount it, Item_ID it)) ?items)"
    by simp
  also have "\<dots> = map ID S"
    unfolding m by simp
  finally have ids: "map Item_ID ?items = map ID S" .
  have "mset (map ID S) = mset (map ID (videos db))"
    by (simp add: S_def)
  with assms(1) have "distinct (map ID S)"
    by (metis mset_eq_imp_distinct_iff)
  with ids have b: "distinct (map Item_ID ?items)" by simp
  have rb: "ranked_before =
            (\<lambda>x y. g (Item_LikesCount x, Item_ID x) < g (Item_LikesCount y, Item_ID y))"
    by (intro ext) (auto simp: ranked_before_def g_def)
  have lr: "likes_rank v = g (LikesCount v, ID v)" for v
    by (simp add: likes_rank_def g_def)
  have "sorted_wrt ranked_before ?items
        \<longleftrightarrow> sorted_wrt (\<lambda>x y. g x < g y) (map (\<lambda>it. (Item_LikesCount it, Item_ID it)) ?items)"
    by (simp add: sorted_wrt_map rb)
  also have "\<dots> \<longleftrightarrow> sorted_wrt (<) (map likes_rank S)"
    unfolding m by (simp add: sorted_wrt_map lr)
  finally have c: "sorted_wrt ranked_before ?items"
    using ss by simp
  from r a b c show ?thesis by blast
qed

definition mk_video :: "nat \<Rightarrow> int \<Rightarrow> Video" where
  "mk_video i l = \<lparr>ID = i, AuthorID = 2, Username = ''bob'', Title = ''t'', Description = '''',
     PlayURL = ''p'', CoverURL = ''c'', CreateTime = 100, LikesCount = l, Popularity = 0\<rparr>"

definition db5 :: DB where
  "db5 = \<lparr>videos = [mk_video 10 5, mk_video 20 3, mk_video 21 3, mk_video 30 1, mk_video 31 1],
     likes = [], socials = [], accounts = [], likes_auto_inc = 1, socials_auto_inc = 1\<rparr>"

lemma db5_pages:
  "map_option (map_sum id (map (map Item_ID \<circ> VideoList))) (all_pages 6 2 None 0 db5)
     = Some (Inr [[10, 21], [20, 31], [30]])"
  by code_simp

theorem likes_ranked_pages_complete_witness:
  "distinct (map ID (videos db5)) \<and> (0::int) < 2 \<and>
   (\<exists>resps. all_pages (Suc (length (videos db5))) 2 None 0 db5 = Some (Inr resps) \<and>
      mset (map (\<lambda>it. (Item_LikesCount it, Item_ID it)) (concat (map VideoList resps)))
        = mset (map (\<lambda>v. (LikesCount v, ID v)) (videos db5)) \<and>
      distinct (map Item_ID (concat (map VideoList resps))) \<and>
      sorted_wrt ranked_before (concat (map VideoList resps))) \<and>
   map_option (map_sum id (map (map Item_ID \<circ> VideoList))) (all_pages 6 2 None 0 db5)
     = Some (Inr [[10, 21], [20, 31], [30]])"
proof -
  have d: "distinct (map ID (videos db5))"
    by (simp add: db5_def mk_video_def)
  have l: "(0::int) < 2" by simp
  from likes_ranked_pages_complete [OF d l, of 0] d l db5_pages show ?thesis
    by blast
qed

section \<open>Auth gate and logout\<close>

text \<open>The claims of a token that \<open>auth.ParseToken\<close> has accepted (signature, expiry
  and not-before verified).\<close>

record Claims =
  Claims_AccountID :: nat
  Claims_Username :: string

text \<open>What the gate does with the request: abort it with a status and an error body,
  or set the caller identity in the request context and call the next handler.\<close>

datatype gate = Abort nat string | Next nat string

definition account_key :: "nat \<Rightarrow> string" where
  "account_key i = ''account:'' @ show_nat i"

text \<open>The part of \<open>check\<close> after the cache lookup: the account row decides, and the
  cache is repopulated with a time-to-live of 24 hours.\<close>

definition check_db :: "Claims \<Rightarrow> string \<Rightarrow> Sys \<Rightarrow> gate \<times> Sys" where
  "check_db claims tokenString s =
     (case FindByID (Claims_AccountID claims) (store s) of
        Inl e \<Rightarrow> (Abort 401 ''token has been revoked'', s)
      | Inr accountInfo \<Rightarrow>
          if Token accountInfo = '''' \<or> Token accountInfo \<noteq> tokenString
          then (Abort 401 ''token has been revoked'', s)
          else
            (Next (Claims_AccountID claims) (Claims_Username claims),
             (case cache s of
                None \<Rightarrow> s
              | Some c \<Rightarrow>
                  s\<lparr>cache := Some (SetBytes (account_key (Claims_AccountID claims))
                                     tokenString 86400000 c)\<rparr>)))"

definition check :: "Claims \<Rightarrow> string \<Rightarrow> Sys \<Rightarrow> gate \<times> Sys" where
  "check claims tokenString s =
     (case cache s of
        None \<Rightarrow> check_db claims tokenString s
      | Some c \<Rightarrow>
          (case GetBytes (account_key (Claims_AccountID claims)) c of
             Inr b \<Rightarrow>
               if b \<noteq> tokenString then (Abort 401 ''token has been revoked'', s)
               else (Next (Claims_AccountID claims) (Claims_Username claims), s)
           | Inl e \<Rightarrow> check_db claims tokenString s))"

text \<open>AccountRepository.Logout: \<open>UPDATE accounts SET token = '' WHERE id = ?\<close>.\<close>

definition AccountRepository_Logout :: "nat \<Rightarrow> DB \<Rightarrow> error + DB" where
  "AccountRepository_Logout i db =
     Inr (db\<lparr>accounts := map (\<lambda>a. if Account_ID a = i then a\<lparr>Token := ''''\<rparr> else a) (accounts db)\<rparr>)"

definition Logout :: "nat \<Rightarrow> Sys \<Rightarrow> error option \<times> Sys" where
  "Logout accountID s =
     (case FindByID accountID (store s) of
        Inl e \<Rightarrow> (Some e, s)
      | Inr account \<Rightarrow>
          if Token account = '''' then (None, s)
          else
            let s1 = (case cache s of
                        None \<Rightarrow> s
                      | Some c \<Rightarrow> s\<lparr>cache := Some (Del (account_key (Account_ID account)) c)\<rparr>)
            in (case AccountRepository_Logout (Account_ID account) (store s1) of
                  Inl e \<Rightarrow> (Some e, s1)
                | Inr db' \<Rightarrow> (None, s1\<lparr>store := db'\<rparr>)))"

section \<open>Lease\<close>

text \<open>
  A request context as far as a cache call depends on it: the background context is
  never done; a context derived from the request is done once the caller has timed
  out or gone away, and a call under a done context fails without reaching the cache.
\<close>

datatype ctx = Background | FromRequest bool

fun ctx_done :: "ctx \<Rightarrow> bool" where
  "ctx_done Background = False"
| "ctx_done (FromRequest d) = d"

text \<open>Client.Lock: SETNX of a random token (\<open>rnd\<close> is what \<open>randToken(16)\<close> returns).\<close>

definition Lock ::
    "error + string \<Rightarrow> string \<Rightarrow> nat \<Rightarrow> Cache option \<Rightarrow> (string \<times> bool \<times> error option) \<times> Cache option" where
  "Lock rnd key t client =
     (case client of
        None \<Rightarrow> (('''', False, None), None)
      | Some c \<Rightarrow>
          (case rnd of
             Inl e \<Rightarrow> (('''', False, Some e), Some c)
           | Inr token \<Rightarrow>
               if key_exists key c then ((token, False, None), Some c)
               else ((token, True, None), Some (SetBytes key token t c))))"

text \<open>unlockScript: \<open>if GET key == token then DEL key else 0\<close>, run atomically by the
  cache; the result is the number of keys deleted.\<close>

definition unlockScript :: "string \<Rightarrow> string \<Rightarrow> Cache \<Rightarrow> nat \<times> Cache" where
  "unlockScript key token c =
     (if kv c key = Some token then (1, Del key c) else (0, c))"

definition Unlock :: "ctx \<Rightarrow> string \<Rightarrow> string \<Rightarrow> Cache option \<Rightarrow> error option \<times> Cache option" where
  "Unlock ctx key token client =
     (case client of
        None \<Rightarrow> (None, None)
      | Some c \<Rightarrow>
          if ctx_done ctx then (Some ContextDone, Some c)
          else (None, Some (snd (unlockScript key token c))))"

text \<open>The deferred release of FeedService.ListLatest, with the context of the request
  in scope: \<open>defer func() { _ = f.cache.Unlock(context.Background(), lockKey, token) }()\<close>.\<close>

definition release_lease :: "ctx \<Rightarrow> string \<Rightarrow> string \<Rightarrow> Cache option \<Rightarrow> Cache option" where
  "release_lease ctx lockKey token client = snd (Unlock Background lockKey token client)"

lemma GetBytes_SetBytes: "GetBytes k (SetBytes k v t c) = Inr v"
  by (simp add: GetBytes_def SetBytes_def)

definition is_next :: "gate \<Rightarrow> bool" where
  "is_next g = (case g of Next _ _ \<Rightarrow> True | Abort _ _ \<Rightarrow> False)"

text \<open>
  C5. A request with a valid (hence non-empty) token whose account has no entry in
  the cache: the gate admits it exactly when the account row exists and its stored
  token equals the presented one; on admission the token is stored under
  \<open>account:{id}\<close> with a time-to-live of 24 hours, so the next request is admitted
  from the cache; otherwise the request is aborted with 401 and nothing changes.
\<close>

theorem auth_gate_self_healing:
  assumes "cache s = Some c"
    and "kv c (account_key (Claims_AccountID claims)) = None"
    and "tokenString \<noteq> ''''"
  shows "(is_next (fst (check claims tokenString s)) \<longleftrightarrow>
            (\<exists>a. FindByID (Claims_AccountID claims) (store s) = Inr a \<and> Token a = tokenString)) \<and>
         (is_next (fst (check claims tokenString s)) \<longrightarrow>
            fst (check claims tokenString s)
              = Next (Claims_AccountID claims) (Claims_Username claims) \<and>
            snd (check claims tokenString s)
              = s\<lparr>cache := Some (SetBytes (account_key (Claims_AccountID claims))
                                   tokenString 86400000 c)\<rparr> \<and>
            (\<exists>c'. cache (snd (check claims tokenString s)) = Some c' \<and>
                  kv c' (account_key (Claims_AccountID claims)) = Some tokenString \<and>
                  ttl c' (account_key (Claims_AccountID claims)) = Some 86400000) \<and>
            check claims tokenString (snd (check claims tokenString s))
              = (Next (Claims_AccountID claims) (Claims_Username claims),
                 snd (check claims tokenString s))) \<and>
         (\<not> is_next (fst (check claims tokenString s)) \<longrightarrow>
            check claims tokenString s = (Abort 401 ''token has been revoked'', s))"
proof -
  have c: "check claims tokenString s = check_db claims tokenString s"
    using assms(1,2) by (simp add: check_def GetBytes_def)
  show ?thesis
  proof (cases "FindByID (Claims_AccountID claims) (store s)")
    case (Inl e)
    then show ?thesis by (simp add: c check_db_def is_next_def)
  next
    case (Inr a)
    show ?thesis
    proof (cases "Token a = tokenString")
      case False
      with Inr show ?thesis by (simp add: c check_db_def is_next_def)
    next
      case True
      define c' where "c' = SetBytes (account_key (Claims_AccountID claims)) tokenString 86400000 c"
      have r: "check claims tokenString s
                 = (Next (Claims_AccountID claims) (Claims_Username claims), s\<lparr>cache := Some c'\<rparr>)"
        using Inr True assms(1,3) by (simp add: c check_db_def c'_def)
      have r2: "check claims tokenString (s\<lparr>cache := Some c'\<rparr>)
                 = (Next (Claims_AccountID claims) (Claims_Username claims), s\<lparr>cache := Some c'\<rparr>)"
        by (simp add: check_def c'_def GetBytes_SetBytes)
      have k: "kv c' (account_key (Claims_AccountID claims)) = Some tokenString"
        "ttl c' (account_key (Claims_AccountID claims)) = Some 86400000"
        by (simp_all add: c'_def SetBytes_def)
      show ?thesis
        unfolding r using Inr True r2 k by (simp add: is_next_def c'_def [symmetric])
    qed
  qed
qed

lemma filter_clear_token:
  "filter (\<lambda>x. Account_ID x = i) (map (\<lambda>x. if Account_ID x = i then x\<lparr>Token := ''''\<rparr> else x) xs)
     = map (\<lambda>x. x\<lparr>Token := ''''\<rparr>) (filter (\<lambda>x. Account_ID x = i) xs)"
  by (induction xs) auto

lemma Logout_store:
  assumes "FindByID accountID (store s) = Inr a" and "Token a \<noteq> ''''"
  shows "fst (Logout accountID s) = None \<and>
         accounts (store (snd (Logout accountID s)))
           = map (\<lambda>x. if Account_ID x = Account_ID a then x\<lparr>Token := ''''\<rparr> else x)
               (accounts (store s))"
  using assms
  by (cases "cache s") (simp_all add: Logout_def Let_def AccountRepository_Logout_def)

text \<open>
  C10. For an account that exists: when its stored token is already empty, Logout
  returns success and leaves store and cache as they are; in every case Logout
  succeeds, and a second Logout right after it succeeds and changes nothing.
\<close>

theorem logout_idempotent:
  assumes "FindByID accountID (store s) = Inr a"
  shows "(Token a = '''' \<longrightarrow> Logout accountID s = (None, s)) \<and>
         fst (Logout accountID s) = None \<and>
         Logout accountID (snd (Logout accountID s)) = (None, snd (Logout accountID s))"
proof (cases "Token a = ''''")
  case True
  with assms show ?thesis by (simp add: Logout_def)
next
  case False
  define s1 where "s1 = snd (Logout accountID s)"
  from assms obtain ys where
    f: "filter (\<lambda>x. Account_ID x = accountID) (accounts (store s)) = a # ys"
    by (auto simp: FindByID_def split: list.splits)
  then have "a \<in> set (filter (\<lambda>x. Account_ID x = accountID) (accounts (store s)))"
    by (metis list.set_intros(1))
  then have id: "Account_ID a = accountID"
    by simp
  from Logout_store [OF assms False] have
    ok: "fst (Logout accountID s) = None" and
    acc: "accounts (store s1)
            = map (\<lambda>x. if Account_ID x = accountID then x\<lparr>Token := ''''\<rparr> else x)
                (accounts (store s))"
    by (simp_all add: s1_def id)
  have "filter (\<lambda>x. Account_ID x = accountID) (accounts (store s1))
          = a\<lparr>Token := ''''\<rparr> # map (\<lambda>x. x\<lparr>Token := ''''\<rparr>) ys"
    unfolding acc filter_clear_token f by simp
  then have "FindByID accountID (store s1) = Inr (a\<lparr>Token := ''''\<rparr>)"
    by (simp add: FindByID_def)
  then have "Logout accountID s1 = (None, s1)"
    by (simp add: Logout_def)
  with ok False show ?thesis by (simp add: s1_def)
qed

text \<open>
  C6. Releasing a lease with a token other than the value stored under the key
  leaves the cache as it is; releasing with the stored token deletes the key. The
  release deferred by ListLatest runs under the background context, so it takes
  effect whatever the state of the caller's context, where a release under a done
  caller context would fail and leave the key.
\<close>

theorem lease_release_safe:
  "(kv c key = Some held \<and> held \<noteq> stale \<longrightarrow>
      Unlock Background key stale (Some c) = (None, Some c) \<and>
      release_lease ctx key stale (Some c) = Some c) \<and>
   (kv c key \<noteq> Some token \<longrightarrow> snd (Unlock ctx key token (Some c)) = Some c) \<and>
   (kv c key = Some token \<longrightarrow>
      Unlock Background key token (Some c) = (None, Some (Del key c)) \<and>
      release_lease ctx key token (Some c) = Some (Del key c) \<and>
      \<not> key_exists key (Del key c)) \<and>
   (ctx_done ctx \<longrightarrow> Unlock ctx key token (Some c) = (Some ContextDone, Some c))"
  by (auto simp: Unlock_def unlockScript_def release_lease_def key_exists_def Del_def)

definition db_session :: DB where
  "db_session = \<lparr>videos = [], likes = [], socials = [],
     accounts = [\<lparr>Account_ID = 7, Account_Username = ''alice'', Password = ''h1'', Token = ''tok7''\<rparr>],
     likes_auto_inc = 1, socials_auto_inc = 1\<rparr>"

definition sys_cold_cache :: Sys where
  "sys_cold_cache = \<lparr>store = db_session, cache = Some empty_cache,
     likeMQ = None, popularityMQ = None, socialMQ = None, VideoRepo_present = True\<rparr>"

definition claims7 :: Claims where
  "claims7 = \<lparr>Claims_AccountID = 7, Claims_Username = ''alice''\<rparr>"

lemma account_key_7: "account_key 7 = ''account:7''"
  by (simp add: account_key_def show_nat.simps)

theorem auth_gate_self_healing_witness:
  "cache sys_cold_cache = Some empty_cache \<and>
   kv empty_cache (account_key (Claims_AccountID claims7)) = None \<and> ''tok7'' \<noteq> '''' \<and>
   account_key (Claims_AccountID claims7) = ''account:7'' \<and>
   is_next (fst (check claims7 ''tok7'' sys_cold_cache)) \<and>
   (\<exists>c'. cache (snd (check claims7 ''tok7'' sys_cold_cache)) = Some c' \<and>
         kv c' (account_key (Claims_AccountID claims7)) = Some ''tok7'' \<and>
         ttl c' (account_key (Claims_AccountID claims7)) = Some 86400000) \<and>
   check claims7 ''tok7'' (snd (check claims7 ''tok7'' sys_cold_cache))
     = (Next (Claims_AccountID claims7) (Claims_Username claims7),
        snd (check claims7 ''tok7'' sys_cold_cache))"
proof -
  have a: "cache sys_cold_cache = Some empty_cache"
    by (simp add: sys_cold_cache_def)
  have b: "kv empty_cache (account_key (Claims_AccountID claims7)) = None"
    by (simp add: empty_cache_def)
  have c: "''tok7'' \<noteq> ''''" by simp
  have f: "\<exists>a. FindByID (Claims_AccountID claims7) (store sys_cold_cache) = Inr a \<and> Token a = ''tok7''"
    by (simp add: FindByID_def claims7_def sys_cold_cache_def db_session_def)
  have k: "account_key (Claims_AccountID claims7) = ''account:7''"
    by (simp add: claims7_def account_key_7)
  note th = auth_gate_self_healing [OF a b c]
  from th f have n: "is_next (fst (check claims7 ''tok7'' sys_cold_cache))"
    by blast
  from th n a b c k show ?thesis
    by blast
qed

definition sys_logged_in :: Sys where
  "sys_logged_in = \<lparr>store = db_session,
     cache = Some (SetBytes ''account:7'' ''tok7'' 86400000 empty_cache),
     likeMQ = None, popularityMQ = None, socialMQ = None, VideoRepo_present = True\<rparr>"

theorem logout_idempotent_witness:
  "FindByID 7 (store sys_logged_in)
     = Inr \<lparr>Account_ID = 7, Account_Username = ''alice'', Password = ''h1'', Token = ''tok7''\<rparr> \<and>
   fst (Logout 7 sys_logged_in) = None \<and>
   Logout 7 (snd (Logout 7 sys_logged_in)) = (None, snd (Logout 7 sys_logged_in)) \<and>
   FindByID 7 (store (snd (Logout 7 sys_logged_in)))
     = Inr \<lparr>Account_ID = 7, Account_Username = ''alice'', Password = ''h1'', Token = ''''\<rparr> \<and>
   Token \<lparr>Account_ID = 7, Account_Username = ''alice'', Password = ''h1'', Token = ''''\<rparr> = '''' \<and>
   Logout 7 (snd (Logout 7 sys_logged_in)) = (None, snd (Logout 7 sys_logged_in))"
proof -
  have f: "FindByID 7 (store sys_logged_in)
     = Inr \<lparr>Account_ID = 7, Account_Username = ''alice'', Password = ''h1'', Token = ''tok7''\<rparr>"
    by (simp add: FindByID_def sys_logged_in_def db_session_def)
  have g: "FindByID 7 (store (snd (Logout 7 sys_logged_in)))
     = Inr \<lparr>Account_ID = 7, Account_Username = ''alice'', Password = ''h1'', Token = ''''\<rparr>"
    by (simp add: Logout_def FindByID_def AccountRepository_Logout_def sys_logged_in_def
        db_session_def)
  from logout_idempotent [OF f] logout_idempotent [OF g] f g show ?thesis
    by simp
qed

theorem lease_release_safe_witness:
  "kv (SetBytes ''lock:k'' ''aa'' 500 empty_cache) ''lock:k'' = Some ''aa'' \<and> ''aa'' \<noteq> ''bb'' \<and>
   Lock (Inr ''aa'') ''lock:k'' 500 (Some empty_cache)
     = ((''aa'', True, None), Some (SetBytes ''lock:k'' ''aa'' 500 empty_cache)) \<and>
   release_lease (FromRequest True) ''lock:k'' ''bb'' (Some (SetBytes ''lock:k'' ''aa'' 500 empty_cache))
     = Some (SetBytes ''lock:k'' ''aa'' 500 empty_cache) \<and>
   release_lease (FromRequest True) ''lock:k'' ''aa'' (Some (SetBytes ''lock:k'' ''aa'' 500 empty_cache))
     = Some (Del ''lock:k'' (SetBytes ''lock:k'' ''aa'' 500 empty_cache)) \<and>
   \<not> key_exists ''lock:k'' (Del ''lock:k'' (SetBytes ''lock:k'' ''aa'' 500 empty_cache)) \<and>
   ctx_done (FromRequest True) \<and>
   Unlock (FromRequest True) ''lock:k'' ''aa'' (Some (SetBytes ''lock:k'' ''aa'' 500 empty_cache))
     = (Some ContextDone, Some (SetBytes ''lock:k'' ''aa'' 500 empty_cache))"
proof -
  let ?c = "SetBytes ''lock:k'' ''aa'' 500 empty_cache"
  have h: "kv ?c ''lock:k'' = Some ''aa''" by (simp add: SetBytes_def)
  have d: "''aa'' \<noteq> ''bb''" by simp
  have l: "Lock (Inr ''aa'') ''lock:k'' 500 (Some empty_cache) = ((''aa'', True, None), Some ?c)"
    by (simp add: Lock_def key_exists_def empty_cache_def)
  have x: "ctx_done (FromRequest True)" by simp
  from lease_release_safe [of ?c "''lock:k''" "''aa''" "''bb''" "FromRequest True" "''aa''"] h d l x
  show ?thesis by simp
qed

section \<open>Popularity feed (FeedService.ListByPopularity)\<close>

text \<open>More of the cache client: EXISTS, ZUNIONSTORE with SUM, and ZREVRANGE, which
  ranks by score and then by member (bytewise), both descending, and reads its
  indices as the cache does (a negative index counts from the end).\<close>

definition Exists :: "string \<Rightarrow> Cache \<Rightarrow> bool" where
  "Exists key c = key_exists key c"

definition zset_of :: "Cache \<Rightarrow> string \<Rightarrow> (string \<times> int) list" where
  "zset_of c key = (case zsets c key of None \<Rightarrow> [] | Some z \<Rightarrow> z)"

definition zunion :: "Cache \<Rightarrow> string list \<Rightarrow> (string \<times> int) list" where
  "zunion c keys = fold (\<lambda>k acc. fold (\<lambda>(m, sc) acc'. zincr m sc acc') (zset_of c k) acc) keys []"

definition ZUnionStore :: "string \<Rightarrow> string list \<Rightarrow> Cache \<Rightarrow> Cache" where
  "ZUnionStore dst keys c =
     c\<lparr>kv := (kv c)(dst := None),
       zsets := (zsets c)(dst := (if zunion c keys = [] then None else Some (zunion c keys))),
       ttl := (ttl c)(dst := None)\<rparr>"

definition zrange_window :: "int \<Rightarrow> int \<Rightarrow> 'a list \<Rightarrow> 'a list" where
  "zrange_window start stop xs =
     (let n = int (length xs);
          a = (if start < 0 then n + start else start);
          b = (if stop < 0 then n + stop else stop);
          a' = max a 0
      in if a' > b \<or> a' \<ge> n then []
         else take (nat (min b (n - 1) - a' + 1)) (drop (nat a') xs))"

definition ZRevRange :: "string \<Rightarrow> int \<Rightarrow> int \<Rightarrow> Cache \<Rightarrow> string list" where
  "ZRevRange key start stop c =
     zrange_window start stop
       (map fst (rev (sort_key (\<lambda>(m, sc). (sc, m)) (zset_of c key))))"

text \<open>Go's \<open>int\<close> and \<open>int64\<close> arithmetic wraps around.\<close>

definition wrap_int64 :: "int \<Rightarrow> int" where
  "wrap_int64 x = (x + 2 ^ 63) mod 2 ^ 64 - 2 ^ 63"

text \<open>\<open>strconv.ParseUint(m, 10, 64)\<close>: decimal digits only, below \<open>2^64\<close>.\<close>

fun parse_digits :: "string \<Rightarrow> nat \<Rightarrow> nat option" where
  "parse_digits [] acc = Some acc"
| "parse_digits (ch # cs) acc =
     (if CHR ''0'' \<le> ch \<and> ch \<le> CHR ''9''
      then parse_digits cs (10 * acc + (of_char ch - 48))
      else None)"

definition ParseUint :: "string \<Rightarrow> nat option" where
  "ParseUint m =
     (if m = [] then None
      else (case parse_digits m 0 of
              None \<Rightarrow> None
            | Some u \<Rightarrow> if u < 2 ^ 64 then Some u else None))"

text \<open>The ids of a window of members: members that do not parse, or parse to zero,
  are dropped.\<close>

definition member_ids :: "string list \<Rightarrow> nat list" where
  "member_ids members =
     List.map_filter (\<lambda>m. case ParseUint m of None \<Rightarrow> None
                                      | Some u \<Rightarrow> if u > 0 then Some u else None) members"

definition GetByIDs :: "nat list \<Rightarrow> DB \<Rightarrow> error + Video list" where
  "GetByIDs ids db =
     (if ids = [] then Inr [] else Inr (filter (\<lambda>v. ID v \<in> set ids) (videos db)))"

text \<open>The map \<open>byID\<close> built from the loaded rows (a later row with the same id
  replaces an earlier one), and the rows in the order of the ids, ids without a row
  left out.\<close>

definition byID :: "Video list \<Rightarrow> nat \<Rightarrow> Video option" where
  "byID vs i = (case filter (\<lambda>v. ID v = i) vs of [] \<Rightarrow> None | w # ws \<Rightarrow> Some (last (w # ws)))"

definition ordered_by_ids :: "Video list \<Rightarrow> nat list \<Rightarrow> Video list" where
  "ordered_by_ids vs ids = List.map_filter (byID vs) ids"

record ListByPopularityResponse =
  Pop_VideoList :: "FeedVideoItem list"
  AsOf :: int
  NextOffset :: int
  Pop_HasMore :: bool
  NextLatestPopularity :: "int option"
  NextLatestBefore :: "int option"
  NextLatestIDBefore :: "nat option"

text \<open>The zero \<open>time.Time\<close> (year 1) in Unix seconds.\<close>

definition zero_time :: int where
  "zero_time = - 62135596800"

text \<open>FeedRepository.ListByPopularity (the store path):
  \<open>ORDER BY popularity DESC, create_time DESC, id DESC\<close> with the triple cursor.\<close>

definition popularity_rank :: "Video \<Rightarrow> int \<times> int \<times> int" where
  "popularity_rank v = (- Popularity v, - CreateTime v, - int (ID v))"

definition popularity_where :: "int \<Rightarrow> int \<Rightarrow> nat \<Rightarrow> Video \<Rightarrow> bool" where
  "popularity_where popularityBefore timeBefore idBefore v =
     (if timeBefore \<noteq> zero_time \<and> idBefore > 0
      then Popularity v < popularityBefore \<or>
           (Popularity v = popularityBefore \<and> CreateTime v < timeBefore) \<or>
           (Popularity v = popularityBefore \<and> CreateTime v = timeBefore \<and> ID v < idBefore)
      else True)"

definition FeedRepository_ListByPopularity ::
    "int \<Rightarrow> int \<Rightarrow> int \<Rightarrow> nat \<Rightarrow> DB \<Rightarrow> error + Video list" where
  "FeedRepository_ListByPopularity limit popularityBefore timeBefore idBefore db =
     Inr (sql_limit limit
            (sort_key popularity_rank
               (filter (popularity_where popularityBefore timeBefore idBefore) (videos db))))"

definition next_latest :: "Video list \<Rightarrow> ListByPopularityResponse \<Rightarrow> ListByPopularityResponse" where
  "next_latest vs resp =
     (if vs \<noteq> []
      then resp\<lparr>NextLatestPopularity := Some (Popularity (last vs)),
                NextLatestBefore := Some (CreateTime (last vs)),
                NextLatestIDBefore := Some (ID (last vs))\<rparr>
      else resp)"

definition popularity_from_store ::
    "int \<Rightarrow> nat \<Rightarrow> int \<Rightarrow> int \<Rightarrow> nat \<Rightarrow> DB \<Rightarrow> error + ListByPopularityResponse" where
  "popularity_from_store limit viewerAccountID latestPopularity latestBefore latestIDBefore db =
     (case FeedRepository_ListByPopularity limit latestPopularity latestBefore latestIDBefore db of
        Inl e \<Rightarrow> Inl e
      | Inr vs \<Rightarrow>
          (case buildFeedVideos vs viewerAccountID db of
             Inl e \<Rightarrow> Inl e
           | Inr items \<Rightarrow>
               Inr (next_latest vs
                      \<lparr>Pop_VideoList = items, AsOf = 0, NextOffset = 0,
                       Pop_HasMore = (int (length items) = limit),
                       NextLatestPopularity = None, NextLatestBefore = None,
                       NextLatestIDBefore = None\<rparr>)))"

text \<open>
  The snapshot of the hot window. \<open>fmt\<close> is \<open>Time.Format("200601021504")\<close> of the Go
  library on a UTC time given in Unix seconds, \<open>now\<close> is the clock. Times are
  mathematical integers: \<open>snapshot_time\<close> is the value of
  \<open>time.Unix(reqAsOf, 0).UTC().Truncate(time.Minute).Unix()\<close> for
  \<open>reqAsOf < 2^63 - 62135596800\<close>; above that the seconds that the library counts
  from the year 1 leave the int64 range, and the wrap is not modelled.
\<close>

definition snapshot_time :: "int \<Rightarrow> int \<Rightarrow> int" where
  "snapshot_time now reqAsOf =
     (if reqAsOf > 0 then reqAsOf - reqAsOf mod 60 else now - now mod 60)"

definition window_keys :: "(int \<Rightarrow> string) \<Rightarrow> int \<Rightarrow> string list" where
  "window_keys fmt asOf = map (\<lambda>i. ''hot:video:1m:'' @ fmt (asOf - 60 * int i)) [0..<60]"

definition snapshot_key :: "(int \<Rightarrow> string) \<Rightarrow> int \<Rightarrow> string" where
  "snapshot_key fmt asOf = ''hot:video:merge:1m:'' @ fmt asOf"

definition materialize :: "(int \<Rightarrow> string) \<Rightarrow> int \<Rightarrow> Cache \<Rightarrow> Cache" where
  "materialize fmt asOf c =
     (if Exists (snapshot_key fmt asOf) c then c
      else Expire (snapshot_key fmt asOf) 120000
             (ZUnionStore (snapshot_key fmt asOf) (window_keys fmt asOf) c))"

definition hot_window :: "(int \<Rightarrow> string) \<Rightarrow> int \<Rightarrow> int \<Rightarrow> int \<Rightarrow> Cache \<Rightarrow> string list" where
  "hot_window fmt asOf limit offset c =
     ZRevRange (snapshot_key fmt asOf) offset (wrap_int64 (offset + limit - 1)) c"

text \<open>The page built from a non-empty window of members; \<open>None\<close> when the rows
  cannot be loaded, in which case the service goes on to the store path.\<close>

definition popularity_from_members ::
    "string list \<Rightarrow> int \<Rightarrow> int \<Rightarrow> int \<Rightarrow> nat \<Rightarrow> DB
      \<Rightarrow> (error + ListByPopularityResponse) option" where
  "popularity_from_members members asOf limit offset viewerAccountID db =
     (case GetByIDs (member_ids members) db of
        Inl e \<Rightarrow> None
      | Inr vs \<Rightarrow>
          let ordered = ordered_by_ids vs (member_ids members) in
          Some (case buildFeedVideos ordered viewerAccountID db of
             Inl e \<Rightarrow> Inl e
           | Inr items \<Rightarrow>
               Inr (next_latest ordered
                      \<lparr>Pop_VideoList = items, AsOf = asOf,
                       NextOffset = wrap_int64 (offset + int (length items)),
                       Pop_HasMore = (int (length items) = limit),
                       NextLatestPopularity = None, NextLatestBefore = None,
                       NextLatestIDBefore = None\<rparr>)))"

definition ListByPopularity ::
    "(int \<Rightarrow> string) \<Rightarrow> int \<Rightarrow> int \<Rightarrow> int \<Rightarrow> int \<Rightarrow> nat \<Rightarrow> int \<Rightarrow> int \<Rightarrow> nat \<Rightarrow> Sys
      \<Rightarrow> (error + ListByPopularityResponse) \<times> Sys" where
  "ListByPopularity fmt now limit reqAsOf offset viewerAccountID
       latestPopularity latestBefore latestIDBefore s =
     (case cache s of
        None \<Rightarrow>
          (popularity_from_store limit viewerAccountID latestPopularity latestBefore
             latestIDBefore (store s), s)
      | Some c \<Rightarrow>
          let asOf = snapshot_time now reqAsOf;
              c1 = materialize fmt asOf c;
              members = hot_window fmt asOf limit offset c1;
              s1 = s\<lparr>cache := Some c1\<rparr>
          in
            if members = [] \<and> offset > 0
            then (Inr \<lparr>Pop_VideoList = [], AsOf = asOf, NextOffset = offset,
                       Pop_HasMore = False, NextLatestPopularity = None,
                       NextLatestBefore = None, NextLatestIDBefore = None\<rparr>, s1)
            else if members \<noteq> []
            then (case popularity_from_members members asOf limit offset viewerAccountID
                         (store s1) of
                    Some r \<Rightarrow> (r, s1)
                  | None \<Rightarrow>
                      (popularity_from_store limit viewerAccountID latestPopularity latestBefore
                         latestIDBefore (store s1), s1))
            else (popularity_from_store limit viewerAccountID latestPopularity latestBefore
                    latestIDBefore (store s1), s1))"

definition fmt0 :: "int \<Rightarrow> string" where
  "fmt0 t = show_nat (nat (t div 60))"

definition hot_cache :: Cache where
  "hot_cache = \<lparr>kv = Map.empty,
     zsets = [''hot:video:merge:1m:1000'' \<mapsto> [(''3'', 10), (''1'', 30), (''2'', 25)]],
     ttl = [''hot:video:merge:1m:1000'' \<mapsto> 120000]\<rparr>"

definition db_two :: DB where
  "db_two = \<lparr>videos = [mk_video 1 4, mk_video 3 9],
     likes = [], socials = [], accounts = [], likes_auto_inc = 1, socials_auto_inc = 1\<rparr>"

definition sys_hot :: Sys where
  "sys_hot = \<lparr>store = db_two, cache = Some hot_cache,
     likeMQ = None, popularityMQ = None, socialMQ = None, VideoRepo_present = True\<rparr>"

lemma wrap_int64_id: "- (2 ^ 63) \<le> x \<Longrightarrow> x < 2 ^ 63 \<Longrightarrow> wrap_int64 x = x"
  by (simp add: wrap_int64_def)

lemma length_zrange_window:
  assumes "0 \<le> start" and "start \<le> stop"
  shows "int (length (zrange_window start stop xs)) \<le> stop - start + 1"
  using assms by (auto simp: zrange_window_def Let_def min_def)

lemma byID_None_iff: "byID vs i = None \<longleftrightarrow> \<not> list_ex (\<lambda>v. ID v = i) vs"
proof -
  have "byID vs i = None \<longleftrightarrow> filter (\<lambda>v. ID v = i) vs = []"
    by (simp add: byID_def split: list.splits)
  then show ?thesis
    by (simp add: filter_empty_conv list_ex_iff)
qed

lemma byID_Some_ID:
  assumes "byID vs i = Some w"
  shows "ID w = i"
proof -
  from assms obtain x xs where f: "filter (\<lambda>v. ID v = i) vs = x # xs" and w: "w = last (x # xs)"
    by (auto simp: byID_def split: list.splits)
  have "last (x # xs) \<in> set (x # xs)" by (rule last_in_set) simp
  with f w have "w \<in> set (filter (\<lambda>v. ID v = i) vs)" by simp
  then show ?thesis by simp
qed

lemma map_ID_ordered_by_ids:
  "map ID (ordered_by_ids vs ids) = filter (\<lambda>i. list_ex (\<lambda>v. ID v = i) vs) ids"
proof (induction ids)
  case Nil
  then show ?case by (simp add: ordered_by_ids_def List.map_filter_simps)
next
  case (Cons i ids)
  show ?case
  proof (cases "byID vs i")
    case None
    with Cons show ?thesis
      using byID_None_iff [of vs i]
      by (simp add: ordered_by_ids_def List.map_filter_simps)
  next
    case (Some w)
    with Cons show ?thesis
      using byID_None_iff [of vs i] byID_Some_ID [OF Some]
      by (simp add: ordered_by_ids_def List.map_filter_simps)
  qed
qed

lemma has_row_loaded:
  assumes "i \<in> set ids"
  shows "list_ex (\<lambda>v. ID v = i) (filter (\<lambda>v. ID v \<in> set ids) vs) \<longleftrightarrow> list_ex (\<lambda>v. ID v = i) vs"
  using assms by (auto simp: list_ex_iff)

lemma popularity_from_members_page:
  "\<exists>resp. popularity_from_members members asOf limit offset viewer db = Some (Inr resp) \<and>
     map Item_ID (Pop_VideoList resp)
       = filter (\<lambda>i. list_ex (\<lambda>v. ID v = i) (videos db)) (member_ids members) \<and>
     AsOf resp = asOf \<and>
     NextOffset resp = wrap_int64 (offset + int (length (Pop_VideoList resp))) \<and>
     Pop_HasMore resp = (int (length (Pop_VideoList resp)) = limit)"
proof -
  define ids where "ids = member_ids members"
  define vs where "vs = (if ids = [] then [] else filter (\<lambda>v. ID v \<in> set ids) (videos db))"
  define ordered where "ordered = ordered_by_ids vs ids"
  have g: "GetByIDs ids db = Inr vs"
    by (simp add: GetByIDs_def vs_def)
  have "\<exists>lm. BatchGetLiked (map ID ordered) viewer db = Inr lm"
    by (simp add: BatchGetLiked_def)
  then obtain lm where "BatchGetLiked (map ID ordered) viewer db = Inr lm" ..
  then have b: "buildFeedVideos ordered viewer db = Inr (map (feed_item lm) ordered)"
    by (simp add: buildFeedVideos_def)
  have "map ID ordered = filter (\<lambda>i. list_ex (\<lambda>v. ID v = i) vs) ids"
    by (simp add: ordered_def map_ID_ordered_by_ids)
  also have "\<dots> = filter (\<lambda>i. list_ex (\<lambda>v. ID v = i) (videos db)) ids"
    by (rule filter_cong) (auto simp: vs_def has_row_loaded)
  finally have m: "map ID ordered = filter (\<lambda>i. list_ex (\<lambda>v. ID v = i) (videos db)) ids" .
  have i: "map Item_ID (map (feed_item lm) ordered) = map ID ordered"
    by (simp add: feed_item_def)
  define resp where "resp = next_latest ordered
      \<lparr>Pop_VideoList = map (feed_item lm) ordered, AsOf = asOf,
       NextOffset = wrap_int64 (offset + int (length (map (feed_item lm) ordered))),
       Pop_HasMore = (int (length (map (feed_item lm) ordered)) = limit),
       NextLatestPopularity = None, NextLatestBefore = None, NextLatestIDBefore = None\<rparr>"
  have r: "popularity_from_members members asOf limit offset viewer db = Some (Inr resp)"
    using g b
    by (simp add: popularity_from_members_def Let_def ids_def [symmetric] ordered_def [symmetric]
        resp_def)
  have f: "Pop_VideoList resp = map (feed_item lm) ordered" "AsOf resp = asOf"
    "NextOffset resp = wrap_int64 (offset + int (length (map (feed_item lm) ordered)))"
    "Pop_HasMore resp = (int (length (map (feed_item lm) ordered)) = limit)"
    by (simp_all add: resp_def next_latest_def)
  have "map Item_ID (Pop_VideoList resp)
          = filter (\<lambda>i. list_ex (\<lambda>v. ID v = i) (videos db)) (member_ids members)"
    unfolding f(1) i m by (simp add: ids_def)
  with r f show ?thesis
    by auto
qed

lemma length_member_ids: "length (member_ids ms) \<le> length ms"
  by (simp add: member_ids_def List.map_filter_def)

text \<open>
  C9. A page served from the snapshot (cache present, non-empty window, limit and
  offset in range): the page holds, in window order, exactly the window's ids that
  have a video row; the other members are left out without any error. next_offset
  advances by the number of returned items and has_more compares that number with
  the limit, so one member without a row makes the page shorter than the limit and
  sets has_more to false.
\<close>

theorem popularity_page_omits_missing_rows:
  assumes "cache s = Some c" and "0 < limit" and "0 \<le> offset" and "offset + limit < 2 ^ 63"
    and "members = hot_window fmt (snapshot_time now reqAsOf) limit offset
                     (materialize fmt (snapshot_time now reqAsOf) c)"
    and "members \<noteq> []"
  shows "\<exists>resp. fst (ListByPopularity fmt now limit reqAsOf offset viewer lp lb lid s) = Inr resp \<and>
           map Item_ID (Pop_VideoList resp)
             = filter (\<lambda>i. list_ex (\<lambda>v. ID v = i) (videos (store s))) (member_ids members) \<and>
           AsOf resp = snapshot_time now reqAsOf \<and>
           NextOffset resp = offset + int (length (Pop_VideoList resp)) \<and>
           Pop_HasMore resp = (int (length (Pop_VideoList resp)) = limit) \<and>
           int (length members) \<le> limit \<and>
           ((\<exists>i\<in>set (member_ids members). \<not> list_ex (\<lambda>v. ID v = i) (videos (store s))) \<longrightarrow>
              int (length (Pop_VideoList resp)) < limit \<and> \<not> Pop_HasMore resp)"
proof -
  let ?asOf = "snapshot_time now reqAsOf"
  let ?has = "\<lambda>i. list_ex (\<lambda>v. ID v = i) (videos (store s))"
  from popularity_from_members_page [of members ?asOf limit offset viewer "store s"]
  obtain resp where
    r: "popularity_from_members members ?asOf limit offset viewer (store s) = Some (Inr resp)" and
    ids: "map Item_ID (Pop_VideoList resp) = filter ?has (member_ids members)" and
    a: "AsOf resp = ?asOf" and
    n: "NextOffset resp = wrap_int64 (offset + int (length (Pop_VideoList resp)))" and
    h: "Pop_HasMore resp = (int (length (Pop_VideoList resp)) = limit)"
    by blast
  have run: "fst (ListByPopularity fmt now limit reqAsOf offset viewer lp lb lid s) = Inr resp"
    using assms(1,5,6) r by (simp add: ListByPopularity_def Let_def)
  have w: "wrap_int64 (offset + limit - 1) = offset + limit - 1"
    using assms(2,3,4) by (intro wrap_int64_id) simp_all
  have lm: "int (length members) \<le> limit"
    using length_zrange_window [of offset "offset + limit - 1"] assms(2,3)
    unfolding assms(5) hot_window_def ZRevRange_def w by fastforce
  have "length (Pop_VideoList resp) = length (filter ?has (member_ids members))"
    using ids by (metis length_map)
  then have li: "length (Pop_VideoList resp) \<le> length (member_ids members)"
    by simp
  with length_member_ids [of members] lm
  have le: "int (length (Pop_VideoList resp)) \<le> limit" by simp
  have no: "NextOffset resp = offset + int (length (Pop_VideoList resp))"
    unfolding n using le assms(3,4) by (intro wrap_int64_id) simp_all
  have miss: "int (length (Pop_VideoList resp)) < limit \<and> \<not> Pop_HasMore resp"
    if "\<exists>i\<in>set (member_ids members). \<not> ?has i"
  proof -
    from that obtain i where "i \<in> set (member_ids members)" and "\<not> ?has i"
      by blast
    then have "length (filter ?has (member_ids members)) < length (member_ids members)"
      by (rule length_filter_less)
    with ids have "length (Pop_VideoList resp) < length (member_ids members)"
      by (metis length_map)
    with length_member_ids [of members] lm have "int (length (Pop_VideoList resp)) < limit"
      by simp
    with h show ?thesis by simp
  qed
  from run ids a no h lm miss show ?thesis by blast
qed

lemma hot_snapshot_key: "snapshot_key fmt0 (snapshot_time 60030 0) = ''hot:video:merge:1m:1000''"
  by (simp add: snapshot_key_def snapshot_time_def fmt0_def show_nat.simps)

lemma hot_materialize:
  "materialize fmt0 (snapshot_time 60030 0) hot_cache = hot_cache"
  unfolding materialize_def hot_snapshot_key
  by (simp add: Exists_def key_exists_def hot_cache_def)

lemma hot_ranked:
  "map fst (rev (sort_key (\<lambda>(m, sc). (sc, m)) (zset_of hot_cache ''hot:video:merge:1m:1000'')))
     = [''1'', ''2'', ''3'']"
  by (simp add: zset_of_def hot_cache_def)

lemma hot_members:
  "hot_window fmt0 (snapshot_time 60030 0) 2 0 (materialize fmt0 (snapshot_time 60030 0) hot_cache)
     = [''1'', ''2'']"
  unfolding hot_materialize hot_window_def hot_snapshot_key ZRevRange_def hot_ranked
  by (simp add: wrap_int64_def zrange_window_def)

lemma hot_further:
  "ZRevRange (snapshot_key fmt0 (snapshot_time 60030 0)) 2 2
     (materialize fmt0 (snapshot_time 60030 0) hot_cache) = [''3'']"
  unfolding hot_materialize hot_snapshot_key ZRevRange_def hot_ranked
  by (simp add: zrange_window_def)

lemma hot_ids: "member_ids [''1'', ''2''] = [1, 2]"
  by (simp add: member_ids_def ParseUint_def List.map_filter_def)

lemma hot_rows:
  "filter (\<lambda>i. list_ex (\<lambda>v. ID v = i) (videos (store sys_hot))) [1, 2] = [1]"
  by (simp add: sys_hot_def db_two_def mk_video_def)

theorem popularity_page_omits_missing_rows_witness:
  "cache sys_hot = Some hot_cache \<and> (0::int) < 2 \<and> (0::int) \<le> 0 \<and> (0::int) + 2 < 2 ^ 63 \<and>
   hot_window fmt0 (snapshot_time 60030 0) 2 0 (materialize fmt0 (snapshot_time 60030 0) hot_cache)
     = [''1'', ''2''] \<and>
   (\<exists>i\<in>set (member_ids [''1'', ''2'']). \<not> list_ex (\<lambda>v. ID v = i) (videos (store sys_hot))) \<and>
   (\<exists>resp. fst (ListByPopularity fmt0 60030 2 0 0 0 0 zero_time 0 sys_hot) = Inr resp \<and>
      map Item_ID (Pop_VideoList resp) = [1] \<and>
      AsOf resp = snapshot_time 60030 0 \<and>
      NextOffset resp = 1 \<and>
      \<not> Pop_HasMore resp) \<and>
   ZRevRange (snapshot_key fmt0 (snapshot_time 60030 0)) 2 2
     (materialize fmt0 (snapshot_time 60030 0) hot_cache) = [''3'']"
proof -
  let ?has = "\<lambda>i. list_ex (\<lambda>v. ID v = i) (videos (store sys_hot))"
  have a: "cache sys_hot = Some hot_cache" by (simp add: sys_hot_def)
  have b: "(0::int) < 2" "(0::int) \<le> 0" "(0::int) + 2 < 2 ^ 63" by simp_all
  have m: "[''1'', ''2''] = hot_window fmt0 (snapshot_time 60030 0) 2 0
             (materialize fmt0 (snapshot_time 60030 0) hot_cache)"
    by (simp only: hot_members)
  have ne: "[''1'', ''2''] \<noteq> ([] :: string list)" by simp
  have miss: "\<exists>i\<in>set (member_ids [''1'', ''2'']). \<not> ?has i"
    by (simp add: hot_ids sys_hot_def db_two_def mk_video_def)
  from popularity_page_omits_missing_rows [OF a b m ne, of 0 0 zero_time 0]
  obtain resp where all:
    "fst (ListByPopularity fmt0 60030 2 0 0 0 0 zero_time 0 sys_hot) = Inr resp \<and>
     map Item_ID (Pop_VideoList resp) = filter ?has (member_ids [''1'', ''2'']) \<and>
     AsOf resp = snapshot_time 60030 0 \<and>
     NextOffset resp = 0 + int (length (Pop_VideoList resp)) \<and>
     Pop_HasMore resp = (int (length (Pop_VideoList resp)) = 2) \<and>
     int (length [''1'', ''2'']) \<le> 2 \<and>
     ((\<exists>i\<in>set (member_ids [''1'', ''2'']). \<not> ?has i) \<longrightarrow>
        int (length (Pop_VideoList resp)) < 2 \<and> \<not> Pop_HasMore resp)"
    by (rule exE)
  from all have r: "fst (ListByPopularity fmt0 60030 2 0 0 0 0 zero_time 0 sys_hot) = Inr resp"
    by (rule conjunct1)
  from all have i1: "map Item_ID (Pop_VideoList resp) = [1]"
    by (simp only: hot_ids hot_rows)
  from all have t: "AsOf resp = snapshot_time 60030 0"
    by simp
  have "length (map Item_ID (Pop_VideoList resp)) = 1"
    by (simp only: i1) simp
  then have len: "length (Pop_VideoList resp) = 1" by simp
  from all len have n1: "NextOffset resp = 1" by simp
  from all len have h: "\<not> Pop_HasMore resp" by simp
  have ex: "\<exists>resp. fst (ListByPopularity fmt0 60030 2 0 0 0 0 zero_time 0 sys_hot) = Inr resp \<and>
      map Item_ID (Pop_VideoList resp) = [1] \<and>
      AsOf resp = snapshot_time 60030 0 \<and>
      NextOffset resp = 1 \<and>
      \<not> Pop_HasMore resp"
    by (rule exI [of _ resp]) (simp only: r i1 t n1 h simp_thms)
  show ?thesis
    by (intro conjI a b hot_members hot_further miss ex)
qed

section \<open>Feed handlers\<close>

text \<open>
  What a handler writes: a status with an error body, or a status with the
  service's response. The body of the request is what \<open>ShouldBindJSON\<close> makes of it
  (an error when it does not bind); the caller identity is what the auth gate has put
  into the request context, if anything. The service a handler calls is a parameter
  of its model, as it is a field of the handler.
\<close>

datatype 'r answer = ErrorJSON nat string | JSON nat 'r

fun status :: "'r answer \<Rightarrow> nat" where
  "status (ErrorJSON code msg) = code"
| "status (JSON code body) = code"

text \<open>\<open>err.Error()\<close>.\<close>

fun Error :: "error \<Rightarrow> string" where
  "Error (ErrorString msg) = msg"
| "Error (MySQLError n) = ''Error '' @ show_nat n"
| "Error ErrRecordNotFound = ''record not found''"
| "Error RedisNil = ''redis: nil''"
| "Error ContextDone = ''context deadline exceeded''"

record ListLatestRequest =
  Latest_Limit :: int
  LatestTime :: int

record ListLikesCountRequest =
  Likes_Limit :: int
  LikesCountBefore :: "int option"
  IDBefore :: "nat option"

record ListByFollowingRequest =
  Following_Limit :: int
  Following_LatestTime :: int

record ListByPopularityRequest =
  Popularity_Limit :: int
  Req_AsOf :: int
  Offset :: int
  LatestIDBefore :: "nat option"
  LatestPopularity :: int
  LatestBefore :: int

definition GetAccountID :: "nat option \<Rightarrow> error + nat" where
  "GetAccountID ctx_account =
     (case ctx_account of
        None \<Rightarrow> Inl (ErrorString ''accountID not found'')
      | Some a \<Rightarrow> Inr a)"

definition FeedHandler_ListLatest ::
    "(int \<Rightarrow> int \<Rightarrow> nat \<Rightarrow> 's \<Rightarrow> (error + 'r) \<times> 's)
      \<Rightarrow> error + ListLatestRequest \<Rightarrow> nat option \<Rightarrow> 's \<Rightarrow> 'r answer \<times> 's" where
  "FeedHandler_ListLatest service body ctx_account s =
     (case body of
        Inl err \<Rightarrow> (ErrorJSON 400 (Error err), s)
      | Inr req \<Rightarrow>
          let limit = (if Latest_Limit req \<le> 0 \<or> Latest_Limit req > 50 then 10
                       else Latest_Limit req);
              latestTime = (if LatestTime req > 0 then LatestTime req else zero_time);
              viewerAccountID = (case GetAccountID ctx_account of Inl err \<Rightarrow> 0 | Inr a \<Rightarrow> a)
          in (case service limit latestTime viewerAccountID s of
                (Inl err, s') \<Rightarrow> (ErrorJSON 500 (Error err), s')
              | (Inr feedItems, s') \<Rightarrow> (JSON 200 feedItems, s')))"

definition FeedHandler_ListLikesCount ::
    "(int \<Rightarrow> LikesCountCursor option \<Rightarrow> nat \<Rightarrow> 's \<Rightarrow> (error + 'r) \<times> 's)
      \<Rightarrow> error + ListLikesCountRequest \<Rightarrow> nat option \<Rightarrow> 's \<Rightarrow> 'r answer \<times> 's" where
  "FeedHandler_ListLikesCount service body ctx_account s =
     (case body of
        Inl err \<Rightarrow> (ErrorJSON 400 (Error err), s)
      | Inr req \<Rightarrow>
          let limit = (if Likes_Limit req \<le> 0 \<or> Likes_Limit req > 50 then 10
                       else Likes_Limit req);
              viewerAccountID = (case GetAccountID ctx_account of Inl err \<Rightarrow> 0 | Inr a \<Rightarrow> a);
              call = (\<lambda>cursor.
                        case service limit cursor viewerAccountID s of
                          (Inl err, s') \<Rightarrow> (ErrorJSON 500 (Error err), s')
                        | (Inr feedItems, s') \<Rightarrow> (JSON 200 feedItems, s'))
          in (case (LikesCountBefore req, IDBefore req) of
                (None, None) \<Rightarrow> call None
              | (None, Some i) \<Rightarrow>
                  (ErrorJSON 400 ''likes_count_before and id_before must be provided together'', s)
              | (Some l, None) \<Rightarrow>
                  (ErrorJSON 400 ''likes_count_before and id_before must be provided together'', s)
              | (Some likesCountBefore, Some idBefore) \<Rightarrow>
                  if likesCountBefore < 0
                  then (ErrorJSON 400 ''invalid cursor: likes_count_before must be >= 0'', s)
                  else if idBefore = 0
                  then (if likesCountBefore \<noteq> 0
                        then (ErrorJSON 400 ''invalid cursor: id_before must be > 0'', s)
                        else call None)
                  else call (Some \<lparr>Cursor_LikesCount = likesCountBefore, Cursor_ID = idBefore\<rparr>)))"

definition FeedHandler_ListByFollowing ::
    "(int \<Rightarrow> int \<Rightarrow> nat \<Rightarrow> 's \<Rightarrow> (error + 'r) \<times> 's)
      \<Rightarrow> error + ListByFollowingRequest \<Rightarrow> nat option \<Rightarrow> 's \<Rightarrow> 'r answer \<times> 's" where
  "FeedHandler_ListByFollowing service body ctx_account s =
     (case body of
        Inl err \<Rightarrow> (ErrorJSON 400 (Error err), s)
      | Inr req \<Rightarrow>
          let limit = (if Following_Limit req \<le> 0 \<or> Following_Limit req > 50 then 10
                       else Following_Limit req)
          in (case GetAccountID ctx_account of
                Inl err \<Rightarrow> (ErrorJSON 401 ''unauthorized'', s)
              | Inr viewerAccountID \<Rightarrow>
                  let latestTime = (if Following_LatestTime req > 0 then Following_LatestTime req
                                    else zero_time)
                  in (case service limit latestTime viewerAccountID s of
                        (Inl err, s') \<Rightarrow> (ErrorJSON 500 (Error err), s')
                      | (Inr feedItems, s') \<Rightarrow> (JSON 200 feedItems, s'))))"

definition FeedHandler_ListByPopularity ::
    "(int \<Rightarrow> int \<Rightarrow> int \<Rightarrow> nat \<Rightarrow> int \<Rightarrow> int \<Rightarrow> nat \<Rightarrow> 's \<Rightarrow> (error + 'r) \<times> 's)
      \<Rightarrow> error + ListByPopularityRequest \<Rightarrow> nat option \<Rightarrow> 's \<Rightarrow> 'r answer \<times> 's" where
  "FeedHandler_ListByPopularity service body ctx_account s =
     (case body of
        Inl err \<Rightarrow> (ErrorJSON 400 (Error err), s)
      | Inr req \<Rightarrow>
          let limit = (if Popularity_Limit req \<le> 0 \<or> Popularity_Limit req > 50 then 10
                       else Popularity_Limit req);
              viewerAccountID = (case GetAccountID ctx_account of Inl err \<Rightarrow> 0 | Inr a \<Rightarrow> a);
              call = (\<lambda>latestPopularity latestBefore latestIDBefore.
                        case service limit (Req_AsOf req) (Offset req) viewerAccountID
                               latestPopularity latestBefore latestIDBefore s of
                          (Inl err, s') \<Rightarrow> (ErrorJSON 500 (Error err), s')
                        | (Inr resp, s') \<Rightarrow> (JSON 200 resp, s'))
          in if LatestPopularity req < 0
             then (ErrorJSON 400 ''latest_popularity must be >= 0'', s)
             else if LatestBefore req \<noteq> zero_time \<or> LatestIDBefore req \<noteq> None
             then (if LatestBefore req = zero_time \<or> LatestIDBefore req = None
                      \<or> LatestIDBefore req = Some 0
                   then (ErrorJSON 400
                           ''latest_before and latest_id_before must be provided together'', s)
                   else call (LatestPopularity req) (LatestBefore req)
                          (case LatestIDBefore req of None \<Rightarrow> 0 | Some i \<Rightarrow> i))
             else call 0 zero_time 0)"

text \<open>The handlers of the likes-ranked and the popularity endpoint on their services.\<close>

definition likes_count_service ::
    "int \<Rightarrow> LikesCountCursor option \<Rightarrow> nat \<Rightarrow> Sys \<Rightarrow> (error + ListLikesCountResponse) \<times> Sys" where
  "likes_count_service limit cursor viewerAccountID s =
     (ListLikesCount limit cursor viewerAccountID (store s), s)"

definition limit_out_of_range :: "int \<Rightarrow> bool" where
  "limit_out_of_range limit \<longleftrightarrow> limit \<le> 0 \<or> limit > 50"

text \<open>
  C8 (as the code has it). A feed request whose limit is out of range (not positive,
  or above 50) is not rejected: each of the four feed handlers replaces the limit by
  the default 10 and answers exactly as it answers the same request with limit 10,
  whatever the service does. Once the body has bound, the latest and the following
  handler never answer 400.
\<close>

theorem out_of_range_limit_defaults_to_ten:
  assumes "limit_out_of_range limit"
  shows "FeedHandler_ListLatest svc1 (Inr (r1\<lparr>Latest_Limit := limit\<rparr>)) acct s
           = FeedHandler_ListLatest svc1 (Inr (r1\<lparr>Latest_Limit := 10\<rparr>)) acct s \<and>
         FeedHandler_ListLikesCount svc2 (Inr (r2\<lparr>Likes_Limit := limit\<rparr>)) acct s
           = FeedHandler_ListLikesCount svc2 (Inr (r2\<lparr>Likes_Limit := 10\<rparr>)) acct s \<and>
         FeedHandler_ListByFollowing svc3 (Inr (r3\<lparr>Following_Limit := limit\<rparr>)) acct s
           = FeedHandler_ListByFollowing svc3 (Inr (r3\<lparr>Following_Limit := 10\<rparr>)) acct s \<and>
         FeedHandler_ListByPopularity svc4 (Inr (r4\<lparr>Popularity_Limit := limit\<rparr>)) acct s
           = FeedHandler_ListByPopularity svc4 (Inr (r4\<lparr>Popularity_Limit := 10\<rparr>)) acct s \<and>
         status (fst (FeedHandler_ListLatest svc1 (Inr (r1\<lparr>Latest_Limit := limit\<rparr>)) acct s)) \<noteq> 400 \<and>
         status (fst (FeedHandler_ListByFollowing svc3 (Inr (r3\<lparr>Following_Limit := limit\<rparr>)) acct s))
           \<noteq> 400"
proof -
  have a: "FeedHandler_ListLatest svc1 (Inr (r1\<lparr>Latest_Limit := limit\<rparr>)) acct s
           = FeedHandler_ListLatest svc1 (Inr (r1\<lparr>Latest_Limit := 10\<rparr>)) acct s"
    using assms by (simp add: FeedHandler_ListLatest_def limit_out_of_range_def Let_def)
  have b: "FeedHandler_ListLikesCount svc2 (Inr (r2\<lparr>Likes_Limit := limit\<rparr>)) acct s
           = FeedHandler_ListLikesCount svc2 (Inr (r2\<lparr>Likes_Limit := 10\<rparr>)) acct s"
    using assms by (simp add: FeedHandler_ListLikesCount_def limit_out_of_range_def Let_def)
  have c: "FeedHandler_ListByFollowing svc3 (Inr (r3\<lparr>Following_Limit := limit\<rparr>)) acct s
           = FeedHandler_ListByFollowing svc3 (Inr (r3\<lparr>Following_Limit := 10\<rparr>)) acct s"
    using assms
    by (simp add: FeedHandler_ListByFollowing_def limit_out_of_range_def Let_def split: sum.splits)
  have d: "FeedHandler_ListByPopularity svc4 (Inr (r4\<lparr>Popularity_Limit := limit\<rparr>)) acct s
           = FeedHandler_ListByPopularity svc4 (Inr (r4\<lparr>Popularity_Limit := 10\<rparr>)) acct s"
    using assms by (simp add: FeedHandler_ListByPopularity_def limit_out_of_range_def Let_def)
  have e: "status (fst (FeedHandler_ListLatest svc1 (Inr r) acct s)) \<noteq> 400" for r
    by (simp add: FeedHandler_ListLatest_def Let_def split: prod.splits sum.splits)
  have f: "status (fst (FeedHandler_ListByFollowing svc3 (Inr r) acct s)) \<noteq> 400" for r
    by (simp add: FeedHandler_ListByFollowing_def Let_def split: prod.splits sum.splits)
  from a b c d e f show ?thesis by simp
qed

text \<open>
  C8 as stated fails: the likes-ranked handler answers 200 to a request with limit 0
  and to one with limit 51.
\<close>

theorem out_of_range_limit_counterexample:
  "limit_out_of_range 0 \<and> limit_out_of_range 51 \<and>
   status (fst (FeedHandler_ListLikesCount likes_count_service
     (Inr \<lparr>Likes_Limit = 0, LikesCountBefore = None, IDBefore = None\<rparr>) None
     (sys_bus_up\<lparr>store := db5\<rparr>))) = 200 \<and>
   status (fst (FeedHandler_ListLikesCount likes_count_service
     (Inr \<lparr>Likes_Limit = 51, LikesCountBefore = None, IDBefore = None\<rparr>) None
     (sys_bus_up\<lparr>store := db5\<rparr>))) = 200"
  by (simp add: limit_out_of_range_def FeedHandler_ListLikesCount_def likes_count_service_def
      ListLikesCount_def ListLikesCountWithCursor_def buildFeedVideos_def BatchGetLiked_def
      GetAccountID_def Let_def split: sum.splits)

definition echo_limit :: "int \<Rightarrow> int \<Rightarrow> nat \<Rightarrow> Sys \<Rightarrow> (error + int) \<times> Sys" where
  "echo_limit limit latestTime viewerAccountID s = (Inr limit, s)"

definition echo_popularity ::
    "int \<Rightarrow> int \<Rightarrow> int \<Rightarrow> nat \<Rightarrow> int \<Rightarrow> int \<Rightarrow> nat \<Rightarrow> Sys \<Rightarrow> (error + int) \<times> Sys" where
  "echo_popularity limit reqAsOf offset viewerAccountID lp lb lid s = (Inr limit, s)"

theorem out_of_range_limit_defaults_to_ten_witness:
  "limit_out_of_range 0 \<and>
   FeedHandler_ListLikesCount likes_count_service
     (Inr \<lparr>Likes_Limit = 0, LikesCountBefore = None, IDBefore = None\<rparr>) None
     (sys_bus_up\<lparr>store := db5\<rparr>)
   = FeedHandler_ListLikesCount likes_count_service
     (Inr \<lparr>Likes_Limit = 10, LikesCountBefore = None, IDBefore = None\<rparr>) None
     (sys_bus_up\<lparr>store := db5\<rparr>) \<and>
   fst (FeedHandler_ListLatest echo_limit
     (Inr \<lparr>Latest_Limit = 0, LatestTime = 0\<rparr>) None (sys_bus_up\<lparr>store := db5\<rparr>)) = JSON 200 10 \<and>
   status (fst (FeedHandler_ListLatest echo_limit
     (Inr \<lparr>Latest_Limit = 0, LatestTime = 0\<rparr>) None (sys_bus_up\<lparr>store := db5\<rparr>))) \<noteq> 400"
proof -
  have h: "limit_out_of_range 0" by (simp add: limit_out_of_range_def)
  have j: "fst (FeedHandler_ListLatest echo_limit
     (Inr \<lparr>Latest_Limit = 10, LatestTime = 0\<rparr>) None (sys_bus_up\<lparr>store := db5\<rparr>)) = JSON 200 10"
    by (simp add: FeedHandler_ListLatest_def GetAccountID_def echo_limit_def)
  note th = out_of_range_limit_defaults_to_ten [OF h,
      where ?svc1.0 = echo_limit and ?r1.0 = "\<lparr>Latest_Limit = 0, LatestTime = 0\<rparr>"
        and acct = None and s = "sys_bus_up\<lparr>store := db5\<rparr>"
        and ?svc2.0 = likes_count_service
        and ?r2.0 = "\<lparr>Likes_Limit = 0, LikesCountBefore = None, IDBefore = None\<rparr>"
        and ?svc3.0 = echo_limit and ?r3.0 = "\<lparr>Following_Limit = 0, Following_LatestTime = 0\<rparr>"
        and ?svc4.0 = echo_popularity
        and ?r4.0 = "\<lparr>Popularity_Limit = 0, Req_AsOf = 0, Offset = 0, LatestIDBefore = None,
                      LatestPopularity = 0, LatestBefore = zero_time\<rparr>"]
  have a: "FeedHandler_ListLatest echo_limit
          (Inr \<lparr>Latest_Limit = 0, LatestTime = 0\<rparr>) None (sys_bus_up\<lparr>store := db5\<rparr>)
        = FeedHandler_ListLatest echo_limit
          (Inr \<lparr>Latest_Limit = 10, LatestTime = 0\<rparr>) None (sys_bus_up\<lparr>store := db5\<rparr>)"
    using th [THEN conjunct1] by simp
  have b: "FeedHandler_ListLikesCount likes_count_service
     (Inr \<lparr>Likes_Limit = 0, LikesCountBefore = None, IDBefore = None\<rparr>) None
     (sys_bus_up\<lparr>store := db5\<rparr>)
   = FeedHandler_ListLikesCount likes_count_service
     (Inr \<lparr>Likes_Limit = 10, LikesCountBefore = None, IDBefore = None\<rparr>) None
     (sys_bus_up\<lparr>store := db5\<rparr>)"
    using th [THEN conjunct2, THEN conjunct1] by simp
  have c: "status (fst (FeedHandler_ListLatest echo_limit
     (Inr \<lparr>Latest_Limit = 0, LatestTime = 0\<rparr>) None (sys_bus_up\<lparr>store := db5\<rparr>))) \<noteq> 400"
    using th [THEN conjunct2, THEN conjunct2, THEN conjunct2, THEN conjunct2, THEN conjunct1] by simp
  from h b c j show ?thesis
    unfolding a by (intro conjI)
qed

end
